theory Spec2Isabelle
  imports Main "HOL-Library.Word" "HOL-Library.Monad_Syntax"
begin

unbundle bit_operations_syntax

section \<open>Machine integers and the byte buffer\<close>

type_synonym u8 = "8 word"
type_synonym u16 = "16 word"
type_synonym u32 = "32 word"

text \<open>
  Modelled from the spec: \<open>Common::swap16\<close> and \<open>Common::swap32\<close> live in
  \<open>Common/Swap.h\<close>, which is not part of the given source. The spec's Endian Normalizer
  converts between the two byte orders, so they reverse the bytes of their argument.
\<close>

definition swap16 :: "u16 \<Rightarrow> u16" where
  "swap16 w = push_bit 8 w OR drop_bit 8 w"

definition swap32 :: "u32 \<Rightarrow> u32" where
  "swap32 w = push_bit 24 w OR push_bit 8 (w AND 0xFF00)
              OR (drop_bit 8 w AND 0xFF00) OR drop_bit 24 w"

text \<open>
  The two overloads of \<open>bswap\<close> assign through a reference; the model returns the new
  value of the referenced object.
\<close>

definition bswap16 :: "u16 \<Rightarrow> u16" where
  "bswap16 w = swap16 w"

definition bswap32 :: "u32 \<Rightarrow> u32" where
  "bswap32 w = swap32 w"

text \<open>
  \<open>m_bytes\<close> is a \<open>std::vector<u8>\<close>. The structures are read through casts of pointers
  into it, in the byte order of the host, which is taken to be little-endian (the
  unconditional \<open>swap\<close> calls turn the big-endian file fields into host values only there).
  \<open>ld16\<close>, \<open>ld32\<close>, \<open>st16\<close> and \<open>st32\<close> are the raw accesses; they are used only below a
  check that the whole object lies inside the buffer.
\<close>

type_synonym bytes = "u8 list"

definition ld16 :: "bytes \<Rightarrow> nat \<Rightarrow> u16" where
  "ld16 buf off = ucast (buf ! off) OR push_bit 8 (ucast (buf ! (off + 1)))"

definition ld32 :: "bytes \<Rightarrow> nat \<Rightarrow> u32" where
  "ld32 buf off = ucast (buf ! off) OR push_bit 8 (ucast (buf ! (off + 1)))
                  OR push_bit 16 (ucast (buf ! (off + 2)))
                  OR push_bit 24 (ucast (buf ! (off + 3)))"

definition st16 :: "bytes \<Rightarrow> nat \<Rightarrow> u16 \<Rightarrow> bytes" where
  "st16 buf off w = buf[off := ucast w, off + 1 := ucast (drop_bit 8 w)]"

definition st32 :: "bytes \<Rightarrow> nat \<Rightarrow> u32 \<Rightarrow> bytes" where
  "st32 buf off w = buf[off := ucast w, off + 1 := ucast (drop_bit 8 w),
                        off + 2 := ucast (drop_bit 16 w), off + 3 := ucast (drop_bit 24 w)]"

section \<open>The ELF32 structures\<close>

text \<open>
  Modelled from the spec: \<open>ElfTypes.h\<close> is not part of the given source. The fields are those
  of the table in section 6 of the spec, at the offsets the ELF32 format fixes, and the
  named constants have the values of that format.
\<close>

record Elf32_Ehdr =
  e_ident :: "u8 list"
  e_type :: u16
  e_machine :: u16
  e_version :: u32
  e_entry :: u32
  e_phoff :: u32
  e_shoff :: u32
  e_flags :: u32
  e_ehsize :: u16
  e_phentsize :: u16
  e_phnum :: u16
  e_shentsize :: u16
  e_shnum :: u16
  e_shstrndx :: u16

record Elf32_Phdr =
  p_type :: u32
  p_offset :: u32
  p_vaddr :: u32
  p_paddr :: u32
  p_filesz :: u32
  p_memsz :: u32
  p_flags :: u32
  p_align :: u32

record Elf32_Shdr =
  sh_name :: u32
  sh_type :: u32
  sh_flags :: u32
  sh_addr :: u32
  sh_offset :: u32
  sh_size :: u32
  sh_link :: u32
  sh_info :: u32
  sh_addralign :: u32
  sh_entsize :: u32

record Elf32_Sym =
  st_name :: u32
  st_value :: u32
  st_size :: u32
  st_info :: u8
  st_other :: u8
  st_shndx :: u16

definition sizeof_Ehdr :: nat where "sizeof_Ehdr = 52"
definition sizeof_Phdr :: nat where "sizeof_Phdr = 32"
definition sizeof_Shdr :: nat where "sizeof_Shdr = 40"
definition sizeof_Sym :: nat where "sizeof_Sym = 16"

definition ET_EXEC :: u16 where "ET_EXEC = 2"
definition EV_CURRENT :: u32 where "EV_CURRENT = 1"
definition PT_LOAD :: u32 where "PT_LOAD = 1"
definition PF_X :: u32 where "PF_X = 1"
definition SHT_NULL :: u32 where "SHT_NULL = 0"
definition STT_OBJECT :: u8 where "STT_OBJECT = 1"
definition STT_FUNC :: u8 where "STT_FUNC = 2"

text \<open>
  Reading a structure through a pointer into the buffer. \<open>None\<close> stands for an object that
  does not lie inside \<open>m_bytes\<close>: the C++ access is then out of bounds and its behaviour
  undefined. It is not an error the code reports.
\<close>

definition get_Ehdr :: "bytes \<Rightarrow> nat \<Rightarrow> Elf32_Ehdr option" where
  "get_Ehdr buf off =
     (if off + sizeof_Ehdr \<le> length buf then
        Some \<lparr>e_ident = take 16 (drop off buf),
              e_type = ld16 buf (off + 16), e_machine = ld16 buf (off + 18),
              e_version = ld32 buf (off + 20), e_entry = ld32 buf (off + 24),
              e_phoff = ld32 buf (off + 28), e_shoff = ld32 buf (off + 32),
              e_flags = ld32 buf (off + 36), e_ehsize = ld16 buf (off + 40),
              e_phentsize = ld16 buf (off + 42), e_phnum = ld16 buf (off + 44),
              e_shentsize = ld16 buf (off + 46), e_shnum = ld16 buf (off + 48),
              e_shstrndx = ld16 buf (off + 50)\<rparr>
      else None)"

definition get_Phdr :: "bytes \<Rightarrow> nat \<Rightarrow> Elf32_Phdr option" where
  "get_Phdr buf off =
     (if off + sizeof_Phdr \<le> length buf then
        Some \<lparr>p_type = ld32 buf off, p_offset = ld32 buf (off + 4),
              p_vaddr = ld32 buf (off + 8), p_paddr = ld32 buf (off + 12),
              p_filesz = ld32 buf (off + 16), p_memsz = ld32 buf (off + 20),
              p_flags = ld32 buf (off + 24), p_align = ld32 buf (off + 28)\<rparr>
      else None)"

definition get_Shdr :: "bytes \<Rightarrow> nat \<Rightarrow> Elf32_Shdr option" where
  "get_Shdr buf off =
     (if off + sizeof_Shdr \<le> length buf then
        Some \<lparr>sh_name = ld32 buf off, sh_type = ld32 buf (off + 4),
              sh_flags = ld32 buf (off + 8), sh_addr = ld32 buf (off + 12),
              sh_offset = ld32 buf (off + 16), sh_size = ld32 buf (off + 20),
              sh_link = ld32 buf (off + 24), sh_info = ld32 buf (off + 28),
              sh_addralign = ld32 buf (off + 32), sh_entsize = ld32 buf (off + 36)\<rparr>
      else None)"

definition get_Sym :: "bytes \<Rightarrow> nat \<Rightarrow> Elf32_Sym option" where
  "get_Sym buf off =
     (if off + sizeof_Sym \<le> length buf then
        Some \<lparr>st_name = ld32 buf off, st_value = ld32 buf (off + 4),
              st_size = ld32 buf (off + 8), st_info = buf ! (off + 12),
              st_other = buf ! (off + 13), st_shndx = ld16 buf (off + 14)\<rparr>
      else None)"

text \<open>
  Writing the swapped fields back. The byte-swap routines never touch \<open>e_ident\<close>, so
  \<open>put_Ehdr\<close> stores the thirteen integer fields only.
\<close>

definition put_Ehdr :: "bytes \<Rightarrow> nat \<Rightarrow> Elf32_Ehdr \<Rightarrow> bytes" where
  "put_Ehdr buf off h =
     st16 (st16 (st16 (st16 (st16 (st16 (st32 (st32 (st32 (st32 (st32 (st16 (st16 buf
       (off + 16) (e_type h)) (off + 18) (e_machine h)) (off + 20) (e_version h))
       (off + 24) (e_entry h)) (off + 28) (e_phoff h)) (off + 32) (e_shoff h))
       (off + 36) (e_flags h)) (off + 40) (e_ehsize h)) (off + 42) (e_phentsize h))
       (off + 44) (e_phnum h)) (off + 46) (e_shentsize h)) (off + 48) (e_shnum h))
       (off + 50) (e_shstrndx h)"

definition put_Phdr :: "bytes \<Rightarrow> nat \<Rightarrow> Elf32_Phdr \<Rightarrow> bytes" where
  "put_Phdr buf off p =
     st32 (st32 (st32 (st32 (st32 (st32 (st32 (st32 buf
       off (p_type p)) (off + 4) (p_offset p)) (off + 8) (p_vaddr p))
       (off + 12) (p_paddr p)) (off + 16) (p_filesz p)) (off + 20) (p_memsz p))
       (off + 24) (p_flags p)) (off + 28) (p_align p)"

definition put_Shdr :: "bytes \<Rightarrow> nat \<Rightarrow> Elf32_Shdr \<Rightarrow> bytes" where
  "put_Shdr buf off s =
     st32 (st32 (st32 (st32 (st32 (st32 (st32 (st32 (st32 (st32 buf
       off (sh_name s)) (off + 4) (sh_type s)) (off + 8) (sh_flags s))
       (off + 12) (sh_addr s)) (off + 16) (sh_offset s)) (off + 20) (sh_size s))
       (off + 24) (sh_link s)) (off + 28) (sh_info s)) (off + 32) (sh_addralign s))
       (off + 36) (sh_entsize s)"

section \<open>Endian normalization\<close>

definition byteswapHeader :: "Elf32_Ehdr \<Rightarrow> Elf32_Ehdr" where
  "byteswapHeader ELF_H =
     ELF_H\<lparr>e_type := bswap16 (e_type ELF_H),
           e_machine := bswap16 (e_machine ELF_H),
           e_ehsize := bswap16 (e_ehsize ELF_H),
           e_phentsize := bswap16 (e_phentsize ELF_H),
           e_phnum := bswap16 (e_phnum ELF_H),
           e_shentsize := bswap16 (e_shentsize ELF_H),
           e_shnum := bswap16 (e_shnum ELF_H),
           e_shstrndx := bswap16 (e_shstrndx ELF_H),
           e_version := bswap32 (e_version ELF_H),
           e_entry := bswap32 (e_entry ELF_H),
           e_phoff := bswap32 (e_phoff ELF_H),
           e_shoff := bswap32 (e_shoff ELF_H),
           e_flags := bswap32 (e_flags ELF_H)\<rparr>"

definition byteswapSegment :: "Elf32_Phdr \<Rightarrow> Elf32_Phdr" where
  "byteswapSegment sec =
     sec\<lparr>p_align := bswap32 (p_align sec),
         p_filesz := bswap32 (p_filesz sec),
         p_flags := bswap32 (p_flags sec),
         p_memsz := bswap32 (p_memsz sec),
         p_offset := bswap32 (p_offset sec),
         p_paddr := bswap32 (p_paddr sec),
         p_vaddr := bswap32 (p_vaddr sec),
         p_type := bswap32 (p_type sec)\<rparr>"

definition byteswapSection :: "Elf32_Shdr \<Rightarrow> Elf32_Shdr" where
  "byteswapSection sec =
     sec\<lparr>sh_addr := bswap32 (sh_addr sec),
         sh_addralign := bswap32 (sh_addralign sec),
         sh_entsize := bswap32 (sh_entsize sec),
         sh_flags := bswap32 (sh_flags sec),
         sh_info := bswap32 (sh_info sec),
         sh_link := bswap32 (sh_link sec),
         sh_name := bswap32 (sh_name sec),
         sh_offset := bswap32 (sh_offset sec),
         sh_size := bswap32 (sh_size sec),
         sh_type := bswap32 (sh_type sec)\<rparr>"

section \<open>The reader\<close>

text \<open>
  \<open>base\<close>, \<open>base32\<close> and \<open>header\<close> all point at the first byte of \<open>m_bytes\<close>; \<open>segments\<close>
  and \<open>sections\<close> are pointers into the same buffer and are kept as offsets from \<open>base\<close>.
  The structures are never copied out: every access reads the buffer again.
\<close>

record ElfReader =
  m_bytes :: bytes
  segments :: nat
  sections :: nat
  entryPoint :: u32
  bRelocate :: bool

definition header :: "ElfReader \<Rightarrow> Elf32_Ehdr option" where
  "header r = get_Ehdr (m_bytes r) 0"

definition segments_idx :: "ElfReader \<Rightarrow> nat \<Rightarrow> Elf32_Phdr option" where
  "segments_idx r i = get_Phdr (m_bytes r) (segments r + sizeof_Phdr * i)"

definition sections_idx :: "ElfReader \<Rightarrow> nat \<Rightarrow> Elf32_Shdr option" where
  "sections_idx r i = get_Shdr (m_bytes r) (sections r + sizeof_Shdr * i)"

text \<open>
  The two loops of \<open>Initialize\<close>. \<open>GetNumSegments()\<close> and \<open>GetNumSections()\<close> read the
  count from the header in the buffer at every iteration, while the table pointers were
  computed once before the loops; a table that overlaps the header can therefore change the
  count while the loop runs, and the model reads it again each time as well.
\<close>

function swap_segments :: "bytes \<Rightarrow> nat \<Rightarrow> nat \<Rightarrow> bytes option" where
  "swap_segments buf segs i =
     do { h \<leftarrow> get_Ehdr buf 0;
          if i < unat (e_phnum h) then
            do { p \<leftarrow> get_Phdr buf (segs + sizeof_Phdr * i);
                 swap_segments (put_Phdr buf (segs + sizeof_Phdr * i) (byteswapSegment p))
                   segs (i + 1) }
          else Some buf }"
  by pat_completeness auto
termination
proof (relation "measure (\<lambda>(buf, segs, i). 65536 - i)")
  show "wf (measure (\<lambda>(buf, segs, i). 65536 - i))" by simp
next
  fix buf :: bytes and segs i :: nat and h :: Elf32_Ehdr and p :: Elf32_Phdr
  assume "i < unat (e_phnum h)"
  moreover have "unat (e_phnum h) < 65536"
    using unsigned_less [of "e_phnum h", where ?'a = nat] by simp
  ultimately show "((put_Phdr buf (segs + sizeof_Phdr * i) (byteswapSegment p), segs, i + 1),
                    (buf, segs, i)) \<in> measure (\<lambda>(buf, segs, i). 65536 - i)"
    by simp
qed

declare swap_segments.simps [simp del]

function swap_sections :: "bytes \<Rightarrow> nat \<Rightarrow> nat \<Rightarrow> bytes option" where
  "swap_sections buf secs i =
     do { h \<leftarrow> get_Ehdr buf 0;
          if i < unat (e_shnum h) then
            do { s \<leftarrow> get_Shdr buf (secs + sizeof_Shdr * i);
                 swap_sections (put_Shdr buf (secs + sizeof_Shdr * i) (byteswapSection s))
                   secs (i + 1) }
          else Some buf }"
  by pat_completeness auto
termination
proof (relation "measure (\<lambda>(buf, secs, i). 65536 - i)")
  show "wf (measure (\<lambda>(buf, secs, i). 65536 - i))" by simp
next
  fix buf :: bytes and secs i :: nat and h :: Elf32_Ehdr and s :: Elf32_Shdr
  assume "i < unat (e_shnum h)"
  moreover have "unat (e_shnum h) < 65536"
    using unsigned_less [of "e_shnum h", where ?'a = nat] by simp
  ultimately show "((put_Shdr buf (secs + sizeof_Shdr * i) (byteswapSection s), secs, i + 1),
                    (buf, secs, i)) \<in> measure (\<lambda>(buf, secs, i). 65536 - i)"
    by simp
qed

declare swap_sections.simps [simp del]

text \<open>
  \<open>Initialize\<close> is run by each constructor on the data of \<open>m_bytes\<close>. It has no failure
  result of its own; the only \<open>None\<close> is an access outside the buffer.
\<close>

definition Initialize :: "bytes \<Rightarrow> ElfReader option" where
  "Initialize ptr =
     do { h0 \<leftarrow> get_Ehdr ptr 0;
          let buf1 = put_Ehdr ptr 0 (byteswapHeader h0);
          h1 \<leftarrow> get_Ehdr buf1 0;
          let segs = unat (e_phoff h1);
          let secs = unat (e_shoff h1);
          buf2 \<leftarrow> swap_segments buf1 segs 0;
          buf3 \<leftarrow> swap_sections buf2 secs 0;
          h \<leftarrow> get_Ehdr buf3 0;
          Some \<lparr>m_bytes = buf3, segments = segs, sections = secs,
                entryPoint = e_entry h, bRelocate = (e_type h \<noteq> ET_EXEC)\<rparr> }"

text \<open>
  Modelled from the spec: the inline accessors \<open>GetNumSegments\<close>, \<open>GetNumSections\<close>,
  \<open>GetSegmentPtr\<close>, \<open>GetSegmentSize\<close> and \<open>IsCodeSegment\<close> are declared in \<open>ElfReader.h\<close>,
  which is not part of the given source. Following the spec, the counts are the ones the
  header declares, a segment's bytes are the \<open>file size\<close> bytes of the buffer at its
  \<open>file offset\<close>, and a code segment is a \<open>LOAD\<close> segment that is marked executable.
\<close>

definition GetNumSegments :: "ElfReader \<Rightarrow> nat option" where
  "GetNumSegments r = map_option (\<lambda>h. unat (e_phnum h)) (header r)"

definition GetNumSections :: "ElfReader \<Rightarrow> nat option" where
  "GetNumSections r = map_option (\<lambda>h. unat (e_shnum h)) (header r)"

definition GetSegmentPtr :: "ElfReader \<Rightarrow> nat \<Rightarrow> nat option" where
  "GetSegmentPtr r i = map_option (\<lambda>p. unat (p_offset p)) (segments_idx r i)"

definition GetSegmentSize :: "ElfReader \<Rightarrow> nat \<Rightarrow> nat option" where
  "GetSegmentSize r i = map_option (\<lambda>p. unat (p_filesz p)) (segments_idx r i)"

definition IsCodeSegment :: "ElfReader \<Rightarrow> nat \<Rightarrow> bool option" where
  "IsCodeSegment r i =
     map_option (\<lambda>p. p_type p = PT_LOAD \<and> p_flags p AND PF_X \<noteq> 0) (segments_idx r i)"

section \<open>Loading the segments\<close>

text \<open>
  The target memory belongs to \<open>Core/HW/Memmap\<close>; the loader reaches it only through
  \<open>Memory::CopyToEmu (address, source, size)\<close> and \<open>Memory::Memset (address, value, size)\<close>.
  \<open>LoadIntoMemory\<close> is modelled by the sequence of these calls it makes, the source pointer
  being kept as an offset into \<open>m_bytes\<close>. Logging and the alert box are left out.
  The method is \<open>const\<close> and nothing in the loop writes to the buffer, so the count
  \<open>header->e_phnum\<close> that the loop condition reads is the same at every iteration.
  \<open>REALRAM_SIZE\<close> is a constant of \<open>Memmap.h\<close> and is taken as a parameter.
\<close>

datatype mem_call = CopyToEmu u32 nat u32 | Memset u32 u8 u32

function load_segments :: "u32 \<Rightarrow> ElfReader \<Rightarrow> bool \<Rightarrow> nat \<Rightarrow> nat \<Rightarrow> mem_call list option" where
  "load_segments REALRAM_SIZE r only_in_mem1 n i =
     (if i < n then
        do { p \<leftarrow> segments_idx r i;
             if p_type p = PT_LOAD then
               do { let writeAddr = p_vaddr p;
                    src \<leftarrow> GetSegmentPtr r i;
                    let srcSize = p_filesz p;
                    let dstSize = p_memsz p;
                    if only_in_mem1 \<and> p_vaddr p \<ge> REALRAM_SIZE then
                      load_segments REALRAM_SIZE r only_in_mem1 n (i + 1)
                    else
                      do { rest \<leftarrow> load_segments REALRAM_SIZE r only_in_mem1 n (i + 1);
                           Some (CopyToEmu writeAddr src srcSize
                                 # (if srcSize < dstSize
                                    then [Memset (writeAddr + srcSize) 0 (dstSize - srcSize)]
                                    else [])
                                 @ rest) } }
             else load_segments REALRAM_SIZE r only_in_mem1 n (i + 1) }
      else Some [])"
  by pat_completeness auto
termination
  by (relation "measure (\<lambda>(R, r, only, n, i). n - i)") auto

declare load_segments.simps [simp del]

definition LoadIntoMemory :: "u32 \<Rightarrow> ElfReader \<Rightarrow> bool \<Rightarrow> (bool \<times> mem_call list) option" where
  "LoadIntoMemory REALRAM_SIZE r only_in_mem1 =
     (if bRelocate r then Some (False, [])
      else do { h \<leftarrow> header r;
                calls \<leftarrow> load_segments REALRAM_SIZE r only_in_mem1 (unat (e_phnum h)) 0;
                Some (True, calls) })"








text \<open>
  What the spec's Segment Loader does for one program header: nothing unless it is a
  \<open>LOAD\<close> entry inside the primary region (when constrained), else one copy of \<open>file size\<close>
  bytes followed, when \<open>in-memory size > file size\<close>, by one zero-fill of the difference.
\<close>

definition zero_fill_calls :: "Elf32_Phdr \<Rightarrow> mem_call list" where
  "zero_fill_calls p =
     (if p_filesz p < p_memsz p
      then [Memset (p_vaddr p + p_filesz p) 0 (p_memsz p - p_filesz p)] else [])"

definition eligible :: "u32 \<Rightarrow> bool \<Rightarrow> Elf32_Phdr \<Rightarrow> bool" where
  "eligible REALRAM_SIZE only_in_mem1 p \<longleftrightarrow>
     p_type p = PT_LOAD \<and> \<not> (only_in_mem1 \<and> REALRAM_SIZE \<le> p_vaddr p)"

definition segment_calls :: "u32 \<Rightarrow> bool \<Rightarrow> Elf32_Phdr \<Rightarrow> mem_call list" where
  "segment_calls REALRAM_SIZE only_in_mem1 p =
     (if eligible REALRAM_SIZE only_in_mem1 p
      then CopyToEmu (p_vaddr p) (unat (p_offset p)) (p_filesz p) # zero_fill_calls p
      else [])"



section \<open>Section names\<close>

text \<open>
  A \<open>char*\<close> or \<open>u8*\<close> derived from \<open>base\<close> is either \<open>nullptr\<close> or \<open>base\<close> plus a signed
  offset. Reading through it is defined only inside \<open>m_bytes\<close>.
\<close>

datatype ptr = Null | Ptr int

definition rd8 :: "bytes \<Rightarrow> int \<Rightarrow> u8 option" where
  "rd8 buf pos = (if 0 \<le> pos \<and> pos < int (length buf) then Some (buf ! nat pos) else None)"

text \<open>
  \<open>strcmp (name, secname)\<close> of the C library, with \<open>name\<close> given by its characters (the
  string ends at the first NUL, or at the end of the list) and \<open>secname\<close> pointing into the
  buffer. The comparison stops at the first difference, so it reads no further than that.
\<close>

fun strcmp :: "bytes \<Rightarrow> u8 list \<Rightarrow> int \<Rightarrow> int option" where
  "strcmp buf [] pos = do { c \<leftarrow> rd8 buf pos; Some (0 - uint c) }"
| "strcmp buf (a # as) pos =
     do { c \<leftarrow> rd8 buf pos;
          if a = 0 then Some (0 - uint c)
          else if a = c then strcmp buf as (pos + 1)
          else Some (uint a - uint c) }"

text \<open>
  \<open>GetSectionDataPtr\<close> is an inline accessor declared in \<open>ElfReader.h\<close>, which is not part of
  the given source, and the spec does not say when it yields no data. The functions that call
  it take it as their first argument: a map from a section index to \<open>nullptr\<close> or to the
  place of the section's data in the buffer.
\<close>

definition GetSectionName :: "(int \<Rightarrow> ptr) \<Rightarrow> ElfReader \<Rightarrow> int \<Rightarrow> ptr option" where
  "GetSectionName GetSectionDataPtr r section_no =
     (if section_no < 0 then None
      else do { s \<leftarrow> sections_idx r (nat section_no);
                if sh_type s = SHT_NULL then Some Null
                else do { let nameOffset = sint (sh_name s);
                          h \<leftarrow> header r;
                          case GetSectionDataPtr (uint (e_shstrndx h)) of
                            Ptr p \<Rightarrow> Some (Ptr (p + nameOffset))
                          | Null \<Rightarrow> Some Null } })"

function GetSectionByName_loop ::
    "(int \<Rightarrow> ptr) \<Rightarrow> ElfReader \<Rightarrow> u8 list \<Rightarrow> int \<Rightarrow> int \<Rightarrow> int option" where
  "GetSectionByName_loop GetSectionDataPtr r name n i =
     (if i < n then
        do { secname \<leftarrow> GetSectionName GetSectionDataPtr r i;
             case secname of
               Null \<Rightarrow> GetSectionByName_loop GetSectionDataPtr r name n (i + 1)
             | Ptr p \<Rightarrow>
                 do { c \<leftarrow> strcmp (m_bytes r) name p;
                      if c = 0 then Some i
                      else GetSectionByName_loop GetSectionDataPtr r name n (i + 1) } }
      else Some (- 1))"
  by pat_completeness auto
termination
  by (relation "measure (\<lambda>(G, r, name, n, i). nat (n - i))") auto

declare GetSectionByName_loop.simps [simp del]

definition GetSectionByName :: "(int \<Rightarrow> ptr) \<Rightarrow> ElfReader \<Rightarrow> u8 list \<Rightarrow> int \<Rightarrow> int option" where
  "GetSectionByName GetSectionDataPtr r name firstSection =
     do { h \<leftarrow> header r;
          GetSectionByName_loop GetSectionDataPtr r name (uint (e_shnum h)) firstSection }"

text \<open>
  The words of the spec: the resolved name of a section is the NUL-terminated string found
  in the data of the string-table section at the stored name offset.
\<close>

definition c_chars :: "u8 list \<Rightarrow> u8 list" where
  "c_chars name = takeWhile (\<lambda>c. c \<noteq> 0) name"

definition c_string :: "bytes \<Rightarrow> int \<Rightarrow> u8 list option" where
  "c_string buf pos =
     (if 0 \<le> pos \<and> 0 \<in> set (drop (nat pos) buf)
      then Some (c_chars (drop (nat pos) buf)) else None)"


section \<open>Symbols\<close>

text \<open>
  \<open>g_symbolDB\<close> is the symbol database of \<open>Core/PowerPC/PPCSymbolDB\<close>. \<open>LoadSymbols\<close> is
  modelled by the calls it makes on it, in order. The name handed to \<open>AddKnownSymbol\<close> is a
  \<open>const char*\<close> that the callee reads up to its NUL. \<open>sectionAddrs\<close> is a member that nothing
  in the given source assigns; following the spec it is a table supplied from outside.
  The call \<open>GetSectionByName (".symtab")\<close> leaves the start index to the default of the
  declaration, which the spec gives as 0.
\<close>

datatype Symbol_Type = Function | Data

datatype symbol_call = AddKnownSymbol u32 u32 "u8 list" Symbol_Type | Index

definition symtab_name :: "u8 list" where
  "symtab_name = [0x2E, 0x73, 0x79, 0x6D, 0x74, 0x61, 0x62]"

definition symtab_idx :: "ElfReader \<Rightarrow> ptr \<Rightarrow> nat \<Rightarrow> Elf32_Sym option" where
  "symtab_idx r symtab isym =
     (case symtab of
        Null \<Rightarrow> None
      | Ptr b \<Rightarrow> if b < 0 then None else get_Sym (m_bytes r) (nat b + sizeof_Sym * isym))"

definition deref_name :: "ElfReader \<Rightarrow> ptr \<Rightarrow> u32 \<Rightarrow> u8 list option" where
  "deref_name r stringBase off =
     (case stringBase of Null \<Rightarrow> None | Ptr b \<Rightarrow> c_string (m_bytes r) (b + uint off))"

function LoadSymbols_loop ::
    "u32 list \<Rightarrow> ElfReader \<Rightarrow> ptr \<Rightarrow> ptr \<Rightarrow> nat \<Rightarrow> nat \<Rightarrow> bool \<times> symbol_call list
     \<Rightarrow> (bool \<times> symbol_call list) option" where
  "LoadSymbols_loop sectionAddrs r stringBase symtab numSymbols isym (hasSymbols, db) =
     (if isym < numSymbols then
        do { e \<leftarrow> symtab_idx r symtab isym;
             let sz = swap32 (st_size e);
             if sz = 0 then
               LoadSymbols_loop sectionAddrs r stringBase symtab numSymbols (isym + 1)
                 (hasSymbols, db)
             else
               do { let stype = st_info e AND 0xF;
                    let sectionIndex = unat (swap16 (st_shndx e));
                    let v = swap32 (st_value e);
                    v \<leftarrow> (if bRelocate r then
                            (if sectionIndex < length sectionAddrs
                             then Some (v + sectionAddrs ! sectionIndex) else None)
                          else Some v);
                    if stype = STT_OBJECT then
                      do { name \<leftarrow> deref_name r stringBase (swap32 (st_name e));
                           LoadSymbols_loop sectionAddrs r stringBase symtab numSymbols (isym + 1)
                             (True, db @ [AddKnownSymbol v sz name Data]) }
                    else if stype = STT_FUNC then
                      do { name \<leftarrow> deref_name r stringBase (swap32 (st_name e));
                           LoadSymbols_loop sectionAddrs r stringBase symtab numSymbols (isym + 1)
                             (True, db @ [AddKnownSymbol v sz name Function]) }
                    else
                      LoadSymbols_loop sectionAddrs r stringBase symtab numSymbols (isym + 1)
                        (hasSymbols, db) } }
      else Some (hasSymbols, db))"
  by pat_completeness auto
termination
  by (relation "measure (\<lambda>(SA, r, sb, st, n, isym, acc). n - isym)") auto

declare LoadSymbols_loop.simps [simp del]

definition LoadSymbols ::
    "(int \<Rightarrow> ptr) \<Rightarrow> u32 list \<Rightarrow> ElfReader \<Rightarrow> (bool \<times> symbol_call list) option" where
  "LoadSymbols GetSectionDataPtr sectionAddrs r =
     do { sec \<leftarrow> GetSectionByName GetSectionDataPtr r symtab_name 0;
          if sec \<noteq> - 1 then
            do { s \<leftarrow> sections_idx r (nat sec);
                 let stringSection = sint (sh_link s);
                 let stringBase = GetSectionDataPtr stringSection;
                 let symtab = GetSectionDataPtr sec;
                 let numSymbols = unat (sh_size s) div sizeof_Sym;
                 (hasSymbols, db) \<leftarrow> LoadSymbols_loop sectionAddrs r stringBase symtab
                                      numSymbols 0 (False, []);
                 Some (hasSymbols, db @ [Index]) }
          else Some (False, [Index]) }"

section \<open>The platform heuristic\<close>

definition HID4_pattern :: u32 where
  "HID4_pattern = swap32 0x7c13fba6"

definition HID4_mask :: u32 where
  "HID4_mask = swap32 0xfc1fffff"

definition code_idx :: "bytes \<Rightarrow> nat \<Rightarrow> nat \<Rightarrow> u32 option" where
  "code_idx buf code j =
     (if code + 4 * j + 4 \<le> length buf then Some (ld32 buf (code + 4 * j)) else None)"

function IsWii_words :: "bytes \<Rightarrow> nat \<Rightarrow> nat \<Rightarrow> nat \<Rightarrow> bool option" where
  "IsWii_words buf code n j =
     (if j < n then
        do { w \<leftarrow> code_idx buf code j;
             if (w AND HID4_mask) = HID4_pattern then Some True
             else IsWii_words buf code n (j + 1) }
      else Some False)"
  by pat_completeness auto
termination
  by (relation "measure (\<lambda>(buf, code, n, j). n - j)") auto

declare IsWii_words.simps [simp del]

function IsWii_segments :: "ElfReader \<Rightarrow> nat \<Rightarrow> nat \<Rightarrow> bool option" where
  "IsWii_segments r n i =
     (if i < n then
        do { is_code \<leftarrow> IsCodeSegment r i;
             if is_code then
               do { code \<leftarrow> GetSegmentPtr r i;
                    sz \<leftarrow> GetSegmentSize r i;
                    found \<leftarrow> IsWii_words (m_bytes r) code (sz div 4) 0;
                    if found then Some True else IsWii_segments r n (i + 1) }
             else IsWii_segments r n (i + 1) }
      else Some False)"
  by pat_completeness auto
termination
  by (relation "measure (\<lambda>(r, n, i). n - i)") auto

declare IsWii_segments.simps [simp del]

definition IsWii :: "ElfReader \<Rightarrow> bool option" where
  "IsWii r = do { n \<leftarrow> GetNumSegments r; IsWii_segments r n 0 }"

text \<open>
  The words of the spec for one symbol-table entry: a call that emits it passes its declared
  size, which is not zero, and classifies it by the low nibble of its info field, "object"
  as \<open>Data\<close> and "function" as \<open>Function\<close>.
\<close>

fun emitted_from :: "Elf32_Sym \<Rightarrow> symbol_call \<Rightarrow> bool" where
  "emitted_from e (AddKnownSymbol v sz name ty) \<longleftrightarrow>
     sz = swap32 (st_size e) \<and> sz \<noteq> 0
     \<and> (case ty of Data \<Rightarrow> st_info e AND 0xF = STT_OBJECT
                  | Function \<Rightarrow> st_info e AND 0xF = STT_FUNC)"
| "emitted_from e Index \<longleftrightarrow> False"

text \<open>
  The words of the spec: an instruction word matches when its bits under the mask equal the
  pattern, and the words the heuristic looks at are the 4-byte words of the file bytes of
  the code segments. Both are taken in the byte order of the host, as the code compares them.
\<close>

definition hid4_match :: "u32 \<Rightarrow> bool" where
  "hid4_match w \<longleftrightarrow> (w AND HID4_mask) = HID4_pattern"

definition code_word :: "ElfReader \<Rightarrow> nat \<Rightarrow> nat \<Rightarrow> u32 option" where
  "code_word r i j =
     do { is_code \<leftarrow> IsCodeSegment r i;
          code \<leftarrow> GetSegmentPtr r i;
          sz \<leftarrow> GetSegmentSize r i;
          if is_code \<and> j < sz div 4 then code_idx (m_bytes r) code j else None }"

section \<open>Fixtures\<close>

text \<open>
  A relocatable image (\<open>e_type = ET_REL\<close>) with one \<open>LOAD\<close> segment, as stored in the file
  (big-endian), the reader \<open>Initialize\<close> makes of it, and its header.
\<close>

definition reloc_image :: bytes where
  "reloc_image =
     [127, 69, 76, 70, 1, 2, 1, 0, 0, 0, 0, 0, 0, 0, 0, 0, 0, 1, 0, 20, 0, 0, 0, 1, 128,
      0, 64, 0, 0, 0, 0, 52, 0, 0, 0, 0, 0, 0, 0, 0, 0, 52, 0, 32, 0, 1, 0, 40, 0, 0, 0,
      0, 0, 0, 0, 1, 0, 0, 0, 84, 128, 0, 64, 0, 128, 0, 64, 0, 0, 0, 0, 4, 0, 0, 0, 8,
      0, 0, 0, 5, 0, 0, 0, 4, 170, 170, 170, 170]"

definition reloc_reader :: ElfReader where
  "reloc_reader =
     \<lparr>m_bytes =
        [127, 69, 76, 70, 1, 2, 1, 0, 0, 0, 0, 0, 0, 0, 0, 0, 1, 0, 20, 0, 1, 0, 0, 0, 0,
         64, 0, 128, 52, 0, 0, 0, 0, 0, 0, 0, 0, 0, 0, 0, 52, 0, 32, 0, 1, 0, 40, 0, 0,
         0, 0, 0, 1, 0, 0, 0, 84, 0, 0, 0, 0, 64, 0, 128, 0, 64, 0, 128, 4, 0, 0, 0, 8,
         0, 0, 0, 5, 0, 0, 0, 4, 0, 0, 0, 170, 170, 170, 170],
      segments = 52, sections = 0, entryPoint = 0x80004000, bRelocate = True\<rparr>"

definition reloc_header :: Elf32_Ehdr where
  "reloc_header =
     \<lparr>e_ident = [127, 69, 76, 70, 1, 2, 1, 0, 0, 0, 0, 0, 0, 0, 0, 0],
      e_type = 1, e_machine = 20, e_version = 1, e_entry = 0x80004000, e_phoff = 52,
      e_shoff = 0, e_flags = 0, e_ehsize = 52, e_phentsize = 32, e_phnum = 1,
      e_shentsize = 40, e_shnum = 0, e_shstrndx = 0\<rparr>"

definition raw_header :: Elf32_Ehdr where
  "raw_header =
     \<lparr>e_ident = [127, 69, 76, 70, 1, 2, 1, 0, 0, 0, 0, 0, 0, 0, 0, 0],
      e_type = 256, e_machine = 5120, e_version = 16777216, e_entry = 0x400080, e_phoff = 872415232,
      e_shoff = 0, e_flags = 0, e_ehsize = 13312, e_phentsize = 8192, e_phnum = 256,
      e_shentsize = 10240, e_shnum = 0, e_shstrndx = 0\<rparr>"











text \<open>
  A \<open>LOAD\<close> segment that declares sixteen file bytes at offset 84 of an image of 88 bytes.
\<close>

definition truncated_image :: bytes where
  "truncated_image =
     [127, 69, 76, 70, 1, 2, 1, 0, 0, 0, 0, 0, 0, 0, 0, 0, 0, 2, 0, 20, 0, 0, 0, 1, 128,
      0, 64, 0, 0, 0, 0, 52, 0, 0, 0, 0, 0, 0, 0, 0, 0, 52, 0, 32, 0, 1, 0, 40, 0, 0, 0,
      0, 0, 0, 0, 1, 0, 0, 0, 84, 128, 0, 64, 0, 128, 0, 64, 0, 0, 0, 0, 16, 0, 0, 0, 16,
      0, 0, 0, 5, 0, 0, 0, 4, 170, 170, 170, 170]"

definition truncated_reader :: ElfReader where
  "truncated_reader =
     \<lparr>m_bytes =
        [127, 69, 76, 70, 1, 2, 1, 0, 0, 0, 0, 0, 0, 0, 0, 0, 2, 0, 20, 0, 1, 0, 0, 0, 0,
         64, 0, 128, 52, 0, 0, 0, 0, 0, 0, 0, 0, 0, 0, 0, 52, 0, 32, 0, 1, 0, 40, 0, 0,
         0, 0, 0, 1, 0, 0, 0, 84, 0, 0, 0, 0, 64, 0, 128, 0, 64, 0, 128, 16, 0, 0, 0, 16,
         0, 0, 0, 5, 0, 0, 0, 4, 0, 0, 0, 170, 170, 170, 170],
      segments = 52, sections = 0, entryPoint = 0x80004000, bRelocate = False\<rparr>"

definition truncated_header :: Elf32_Ehdr where
  "truncated_header =
     \<lparr>e_ident = [127, 69, 76, 70, 1, 2, 1, 0, 0, 0, 0, 0, 0, 0, 0, 0],
      e_type = 2, e_machine = 20, e_version = 1, e_entry = 0x80004000, e_phoff = 52,
      e_shoff = 0, e_flags = 0, e_ehsize = 52, e_phentsize = 32, e_phnum = 1,
      e_shentsize = 40, e_shnum = 0, e_shstrndx = 0\<rparr>"

definition truncated_seg0 :: Elf32_Phdr where
  "truncated_seg0 =
     \<lparr>p_type = 1, p_offset = 84, p_vaddr = 0x80004000, p_paddr = 0x80004000, p_filesz = 16,
      p_memsz = 16, p_flags = 5, p_align = 4\<rparr>"

text \<open>
  For the fixtures, one possible \<open>GetSectionDataPtr\<close>: the data of a section of the table is
  the buffer at the section's offset, and an index outside the table has no data.
\<close>

definition section_data :: "ElfReader \<Rightarrow> int \<Rightarrow> ptr" where
  "section_data r i =
     (case header r of
        None \<Rightarrow> Null
      | Some h \<Rightarrow>
          if i < 0 \<or> uint (e_shnum h) \<le> i then Null
          else (case sections_idx r (nat i) of
                  None \<Rightarrow> Null
                | Some s \<Rightarrow> Ptr (uint (sh_offset s))))"

text \<open>
  A reader with three sections: a null section, \<open>.strtab\<close>, which holds the section names
  and the symbol names, and \<open>.symtab\<close>. The symbol table has four entries: the null
  entry of size 0, a function \<open>main\<close> of size 32, an object \<open>data\<close> of size 4 and a
  section symbol \<open>misc\<close> of size 8. The symbol entries stay big-endian in the buffer; only
  the headers are normalized.
\<close>

definition symbols_reader :: ElfReader where
  "symbols_reader =
     \<lparr>m_bytes =
        [127, 69, 76, 70, 1, 2, 1, 0, 0, 0, 0, 0, 0, 0, 0, 0, 2, 0, 20, 0, 1, 0, 0, 0, 0,
         64, 0, 128, 0, 0, 0, 0, 52, 0, 0, 0, 0, 0, 0, 0, 52, 0, 32, 0, 0, 0, 40, 0, 3,
         0, 1, 0, 0, 0, 0, 0, 0, 0, 0, 0, 0, 0, 0, 0, 0, 0, 0, 0, 0, 0, 0, 0, 0, 0, 0, 0,
         0, 0, 0, 0, 0, 0, 0, 0, 1, 0, 0, 0, 0, 0, 0, 0, 1, 0, 0, 0, 3, 0, 0, 0, 0, 0, 0,
         0, 0, 0, 0, 0, 172, 0, 0, 0, 32, 0, 0, 0, 0, 0, 0, 0, 0, 0, 0, 0, 1, 0, 0, 0, 0,
         0, 0, 0, 9, 0, 0, 0, 2, 0, 0, 0, 0, 0, 0, 0, 0, 0, 0, 0, 204, 0, 0, 0, 64, 0, 0,
         0, 1, 0, 0, 0, 0, 0, 0, 0, 1, 0, 0, 0, 16, 0, 0, 0, 0, 46, 115, 116, 114, 116,
         97, 98, 0, 46, 115, 121, 109, 116, 97, 98, 0, 109, 97, 105, 110, 0, 100, 97,
         116, 97, 0, 109, 105, 115, 99, 0, 0, 0, 0, 0, 0, 0, 0, 0, 0, 0, 0, 0, 0, 0, 0,
         0, 0, 0, 0, 17, 128, 0, 64, 0, 0, 0, 0, 32, 18, 0, 0, 1, 0, 0, 0, 22, 128, 0,
         80, 0, 0, 0, 0, 4, 17, 0, 0, 1, 0, 0, 0, 27, 128, 0, 112, 0, 0, 0, 0, 8, 3, 0,
         0, 1],
      segments = 0, sections = 52, entryPoint = 0x80004000, bRelocate = False\<rparr>"




definition name_main :: "u8 list" where
  "name_main = [109, 97, 105, 110]"

definition name_data :: "u8 list" where
  "name_data = [100, 97, 116, 97]"

definition symbols_db :: "symbol_call list" where
  "symbols_db = [AddKnownSymbol 0x80004000 32 name_main Function,
                 AddKnownSymbol 0x80005000 4 name_data Data, Index]"

text \<open>
  A code segment of two instruction words, \<open>0x60000000\<close> and \<open>0x7c13fba6\<close> (in the file's
  big-endian order), and two copies of it that differ in one bit of the second word: in bit
  21, which the mask \<open>0xfc1fffff\<close> leaves out, and in bit 0, which it covers.
\<close>

definition wii_reader :: ElfReader where
  "wii_reader =
     \<lparr>m_bytes =
        [127, 69, 76, 70, 1, 2, 1, 0, 0, 0, 0, 0, 0, 0, 0, 0, 2, 0, 20, 0, 1, 0, 0, 0, 0,
         64, 0, 128, 52, 0, 0, 0, 0, 0, 0, 0, 0, 0, 0, 0, 52, 0, 32, 0, 1, 0, 40, 0, 0,
         0, 0, 0, 1, 0, 0, 0, 84, 0, 0, 0, 0, 64, 0, 128, 0, 64, 0, 128, 8, 0, 0, 0, 8,
         0, 0, 0, 5, 0, 0, 0, 4, 0, 0, 0, 96, 0, 0, 0, 124, 19, 251, 166],
      segments = 52, sections = 0, entryPoint = 0x80004000, bRelocate = False\<rparr>"

definition wii_bit21_image :: bytes where
  "wii_bit21_image =
     [127, 69, 76, 70, 1, 2, 1, 0, 0, 0, 0, 0, 0, 0, 0, 0, 0, 2, 0, 20, 0, 0, 0, 1, 128,
      0, 64, 0, 0, 0, 0, 52, 0, 0, 0, 0, 0, 0, 0, 0, 0, 52, 0, 32, 0, 1, 0, 40, 0, 0, 0,
      0, 0, 0, 0, 1, 0, 0, 0, 84, 128, 0, 64, 0, 128, 0, 64, 0, 0, 0, 0, 8, 0, 0, 0, 8,
      0, 0, 0, 5, 0, 0, 0, 4, 96, 0, 0, 0, 124, 51, 251, 166]"

definition wii_bit21_reader :: ElfReader where
  "wii_bit21_reader =
     \<lparr>m_bytes =
        [127, 69, 76, 70, 1, 2, 1, 0, 0, 0, 0, 0, 0, 0, 0, 0, 2, 0, 20, 0, 1, 0, 0, 0, 0,
         64, 0, 128, 52, 0, 0, 0, 0, 0, 0, 0, 0, 0, 0, 0, 52, 0, 32, 0, 1, 0, 40, 0, 0,
         0, 0, 0, 1, 0, 0, 0, 84, 0, 0, 0, 0, 64, 0, 128, 0, 64, 0, 128, 8, 0, 0, 0, 8,
         0, 0, 0, 5, 0, 0, 0, 4, 0, 0, 0, 96, 0, 0, 0, 124, 51, 251, 166],
      segments = 52, sections = 0, entryPoint = 0x80004000, bRelocate = False\<rparr>"

definition wii_bit0_reader :: ElfReader where
  "wii_bit0_reader =
     \<lparr>m_bytes =
        [127, 69, 76, 70, 1, 2, 1, 0, 0, 0, 0, 0, 0, 0, 0, 0, 2, 0, 20, 0, 1, 0, 0, 0, 0,
         64, 0, 128, 52, 0, 0, 0, 0, 0, 0, 0, 0, 0, 0, 0, 52, 0, 32, 0, 1, 0, 40, 0, 0,
         0, 0, 0, 1, 0, 0, 0, 84, 0, 0, 0, 0, 64, 0, 128, 0, 64, 0, 128, 8, 0, 0, 0, 8,
         0, 0, 0, 5, 0, 0, 0, 4, 0, 0, 0, 96, 0, 0, 0, 124, 19, 251, 167],
      segments = 52, sections = 0, entryPoint = 0x80004000, bRelocate = False\<rparr>"

definition wii_header :: Elf32_Ehdr where
  "wii_header =
     \<lparr>e_ident = [127, 69, 76, 70, 1, 2, 1, 0, 0, 0, 0, 0, 0, 0, 0, 0],
      e_type = 2, e_machine = 20, e_version = 1, e_entry = 0x80004000, e_phoff = 52,
      e_shoff = 0, e_flags = 0, e_ehsize = 52, e_phentsize = 32, e_phnum = 1,
      e_shentsize = 40, e_shnum = 0, e_shstrndx = 0\<rparr>"

text \<open>
  An image whose sixteen identification bytes are all \<open>0x58\<close> instead of the ELF32
  signature, with one \<open>LOAD\<close> segment; the header as the host reads it from the file, and
  the reader \<open>Initialize\<close> makes of the image.
\<close>

definition badmagic_image :: bytes where
  "badmagic_image =
     [88, 88, 88, 88, 88, 88, 88, 88, 88, 88, 88, 88, 88, 88, 88, 88, 0, 2, 0, 20, 0, 0,
      0, 1, 128, 0, 64, 0, 0, 0, 0, 52, 0, 0, 0, 0, 0, 0, 0, 0, 0, 52, 0, 32, 0, 1, 0,
      40, 0, 0, 0, 0, 0, 0, 0, 1, 0, 0, 0, 84, 128, 0, 64, 0, 128, 0, 64, 0, 0, 0, 0, 4,
      0, 0, 0, 8, 0, 0, 0, 5, 0, 0, 0, 4, 170, 170, 170, 170]"

definition badmagic_reader :: ElfReader where
  "badmagic_reader =
     \<lparr>m_bytes =
        [88, 88, 88, 88, 88, 88, 88, 88, 88, 88, 88, 88, 88, 88, 88, 88, 2, 0, 20, 0, 1,
         0, 0, 0, 0, 64, 0, 128, 52, 0, 0, 0, 0, 0, 0, 0, 0, 0, 0, 0, 52, 0, 32, 0, 1, 0,
         40, 0, 0, 0, 0, 0, 1, 0, 0, 0, 84, 0, 0, 0, 0, 64, 0, 128, 0, 64, 0, 128, 4, 0,
         0, 0, 8, 0, 0, 0, 5, 0, 0, 0, 4, 0, 0, 0, 170, 170, 170, 170],
      segments = 52, sections = 0, entryPoint = 0x80004000, bRelocate = False\<rparr>"

definition badmagic_raw_header :: Elf32_Ehdr where
  "badmagic_raw_header =
     \<lparr>e_ident = [88, 88, 88, 88, 88, 88, 88, 88, 88, 88, 88, 88, 88, 88, 88, 88],
      e_type = 512, e_machine = 5120, e_version = 16777216, e_entry = 0x400080, e_phoff = 872415232,
      e_shoff = 0, e_flags = 0, e_ehsize = 13312, e_phentsize = 8192, e_phnum = 256,
      e_shentsize = 10240, e_shnum = 0, e_shstrndx = 0\<rparr>"

definition badmagic_header :: Elf32_Ehdr where
  "badmagic_header =
     \<lparr>e_ident = [88, 88, 88, 88, 88, 88, 88, 88, 88, 88, 88, 88, 88, 88, 88, 88],
      e_type = 2, e_machine = 20, e_version = 1, e_entry = 0x80004000, e_phoff = 52,
      e_shoff = 0, e_flags = 0, e_ehsize = 52, e_phentsize = 32, e_phnum = 1,
      e_shentsize = 40, e_shnum = 0, e_shstrndx = 0\<rparr>"

definition ELF_magic :: "u8 list" where
  "ELF_magic = [0x7F, 0x45, 0x4C, 0x46]"

section \<open>Endian normalization is not idempotent\<close>

lemma swap16_swap16: "swap16 (swap16 w) = w"
  unfolding swap16_def
  by (rule bit_word_eqI) (auto simp: bit_simps)

text \<open>
  Claim C9. A valid ELF32 header carries the format version \<open>EV_CURRENT\<close>. Whenever the
  header obtained by one run of \<open>byteswapHeader\<close> has that version, a second run yields a
  different header: the normalization is not idempotent.
\<close>

theorem byteswapHeader_not_idempotent:
  "e_version (byteswapHeader h) = EV_CURRENT \<Longrightarrow>
   byteswapHeader (byteswapHeader h) \<noteq> byteswapHeader h"
proof
  assume v: "e_version (byteswapHeader h) = EV_CURRENT"
    and eq: "byteswapHeader (byteswapHeader h) = byteswapHeader h"
  have "e_version (byteswapHeader (byteswapHeader h)) = bswap32 (e_version (byteswapHeader h))"
    by (simp add: byteswapHeader_def)
  with v eq have "bswap32 EV_CURRENT = EV_CURRENT" by simp
  then show False by (simp add: bswap32_def swap32_def EV_CURRENT_def)
qed

theorem byteswapHeader_not_idempotent_witness:
  "e_version (byteswapHeader raw_header) = EV_CURRENT
   \<and> byteswapHeader (byteswapHeader raw_header) \<noteq> byteswapHeader raw_header"
proof -
  have v: "e_version (byteswapHeader raw_header) = EV_CURRENT"
    by (simp add: byteswapHeader_def raw_header_def bswap32_def swap32_def EV_CURRENT_def)
  from byteswapHeader_not_idempotent [OF v] v show ?thesis by simp
qed

section \<open>Relocatable images are refused\<close>

lemma Initialize_bRelocate:
  "Initialize buf = Some r \<Longrightarrow> header r = Some h \<Longrightarrow> bRelocate r = (e_type h \<noteq> ET_EXEC)"
  by (auto simp: Initialize_def Let_def header_def split: bind_splits)

lemma Initialize_reloc_image: "Initialize reloc_image = Some reloc_reader"
  by code_simp

lemma header_reloc_reader: "header reloc_reader = Some reloc_header"
  by code_simp

text \<open>
  Claim C1. When the header of a constructed reader has a type other than \<open>ET_EXEC\<close>,
  \<open>LoadIntoMemory\<close> returns false and makes no call on the target memory, neither a copy
  nor a fill, whatever its arguments and whatever the program headers hold.
\<close>

theorem LoadIntoMemory_relocatable:
  assumes "Initialize buf = Some r" and "header r = Some h" and "e_type h \<noteq> ET_EXEC"
  shows "LoadIntoMemory REALRAM_SIZE r only_in_mem1 = Some (False, [])"
proof -
  from assms have "bRelocate r" by (simp add: Initialize_bRelocate)
  then show ?thesis by (simp add: LoadIntoMemory_def)
qed

theorem LoadIntoMemory_relocatable_witness:
  "Initialize reloc_image = Some reloc_reader
   \<and> header reloc_reader = Some reloc_header
   \<and> e_type reloc_header \<noteq> ET_EXEC
   \<and> LoadIntoMemory 0x1800000 reloc_reader False = Some (False, [])"
proof -
  have t: "e_type reloc_header \<noteq> ET_EXEC"
    by (simp add: reloc_header_def ET_EXEC_def)
  from LoadIntoMemory_relocatable [OF Initialize_reloc_image header_reloc_reader t,
      of "0x1800000" False]
  show ?thesis using Initialize_reloc_image header_reloc_reader t by simp
qed

section \<open>The calls of the segment loader\<close>

lemma load_segments_unfold:
  "load_segments R r only n i =
     (if i < n then
        (case segments_idx r i of None \<Rightarrow> None
         | Some p \<Rightarrow> (case load_segments R r only n (i + 1) of None \<Rightarrow> None
                      | Some rest \<Rightarrow> Some (segment_calls R only p @ rest)))
      else Some [])"
  apply (subst load_segments.simps)
  apply (auto simp: segment_calls_def eligible_def zero_fill_calls_def GetSegmentPtr_def Let_def
              split: option.splits bind_splits)
  done

lemma load_segments_Some:
  "(\<And>j. i \<le> j \<Longrightarrow> j < n \<Longrightarrow> segments_idx r j = Some (ps j)) \<Longrightarrow>
   load_segments R r only n i = Some (concat (map (\<lambda>j. segment_calls R only (ps j)) [i..<n]))"
proof (induction "n - i" arbitrary: i)
  case 0
  then show ?case by (subst load_segments_unfold) simp
next
  case (Suc d)
  then have lt: "i < n" by simp
  have "load_segments R r only n (i + 1)
        = Some (concat (map (\<lambda>j. segment_calls R only (ps j)) [i + 1..<n]))"
    using Suc by (intro Suc(1)) auto
  moreover have "segments_idx r i = Some (ps i)" using Suc(3) lt by simp
  ultimately show ?case
    using lt by (subst load_segments_unfold) (simp add: upt_conv_Cons)
qed




























section \<open>No check of the file extent\<close>

lemma segments_idx_in_table:
  assumes "segments r + sizeof_Phdr * n \<le> length (m_bytes r)" and "j < n"
  shows "segments_idx r j \<noteq> None"
proof -
  from assms(2) have "sizeof_Phdr * j + sizeof_Phdr \<le> sizeof_Phdr * n"
    by (metis Suc_leI mult_Suc_right mult_le_mono2 add.commute)
  with assms(1) show ?thesis by (simp add: segments_idx_def get_Phdr_def)
qed

text \<open>
  Claim C4, as amended. \<open>LoadIntoMemory\<close> never compares a segment's file extent with the
  length of the buffer. For an image that is not relocatable and whose program header table
  lies inside the buffer it returns true, and the copy of every \<open>LOAD\<close> segment that is not
  skipped is among its calls with the declared offset and size, whatever they are.
\<close>

theorem LoadIntoMemory_ignores_file_extent:
  assumes nrel: "\<not> bRelocate r" and hdr: "header r = Some h"
    and table: "segments r + sizeof_Phdr * unat (e_phnum h) \<le> length (m_bytes r)"
  shows "\<exists>calls. LoadIntoMemory REALRAM_SIZE r only_in_mem1 = Some (True, calls)
           \<and> (\<forall>i p. i < unat (e_phnum h) \<and> segments_idx r i = Some p
                  \<and> eligible REALRAM_SIZE only_in_mem1 p
                \<longrightarrow> CopyToEmu (p_vaddr p) (unat (p_offset p)) (p_filesz p) \<in> set calls)"
proof -
  let ?n = "unat (e_phnum h)"
  let ?sc = "\<lambda>j. segment_calls REALRAM_SIZE only_in_mem1 (the (segments_idx r j))"
  let ?calls = "concat (map ?sc [0..<?n])"
  have "segments_idx r j = Some (the (segments_idx r j))" if "j < ?n" for j
    using segments_idx_in_table [OF table that] by simp
  then have "load_segments REALRAM_SIZE r only_in_mem1 ?n 0 = Some ?calls"
    by (rule load_segments_Some [where ps = "\<lambda>j. the (segments_idx r j)"])
  then have "LoadIntoMemory REALRAM_SIZE r only_in_mem1 = Some (True, ?calls)"
    using nrel hdr by (simp add: LoadIntoMemory_def)
  moreover have "CopyToEmu (p_vaddr p) (unat (p_offset p)) (p_filesz p) \<in> set ?calls"
    if "i < ?n" "segments_idx r i = Some p" "eligible REALRAM_SIZE only_in_mem1 p" for i p
  proof -
    have "CopyToEmu (p_vaddr p) (unat (p_offset p)) (p_filesz p) \<in> set (?sc i)"
      using that(2,3) by (simp add: segment_calls_def)
    moreover have "i \<in> set [0..<?n]" using that(1) by simp
    ultimately show ?thesis unfolding set_concat by (metis (no_types, lifting) UN_I image_eqI image_set)
  qed
  ultimately show ?thesis by blast
qed

lemma truncated_hdr: "header truncated_reader = Some truncated_header"
  by code_simp

lemma truncated_seg0: "segments_idx truncated_reader 0 = Some truncated_seg0"
  by code_simp

theorem LoadIntoMemory_ignores_file_extent_witness:
  "\<not> bRelocate truncated_reader \<and> header truncated_reader = Some truncated_header
   \<and> segments truncated_reader + sizeof_Phdr * unat (e_phnum truncated_header)
       \<le> length (m_bytes truncated_reader)
   \<and> (\<exists>calls. LoadIntoMemory 0x1800000 truncated_reader False = Some (True, calls)
          \<and> CopyToEmu 0x80004000 84 16 \<in> set calls)"
proof -
  have nrel: "\<not> bRelocate truncated_reader" by (simp add: truncated_reader_def)
  have table: "segments truncated_reader + sizeof_Phdr * unat (e_phnum truncated_header)
       \<le> length (m_bytes truncated_reader)"
    by (simp add: truncated_reader_def truncated_header_def sizeof_Phdr_def)
  have el: "eligible 0x1800000 False truncated_seg0"
    by (simp add: eligible_def truncated_seg0_def PT_LOAD_def)
  have i: "0 < unat (e_phnum truncated_header)" by (simp add: truncated_header_def)
  from LoadIntoMemory_ignores_file_extent [OF nrel truncated_hdr table, of "0x1800000" False]
  obtain calls where "LoadIntoMemory 0x1800000 truncated_reader False = Some (True, calls)"
    and "\<forall>i p. i < unat (e_phnum truncated_header) \<and> segments_idx truncated_reader i = Some p
                  \<and> eligible 0x1800000 False p
                \<longrightarrow> CopyToEmu (p_vaddr p) (unat (p_offset p)) (p_filesz p) \<in> set calls"
    by blast
  with i truncated_seg0 el
  have "LoadIntoMemory 0x1800000 truncated_reader False = Some (True, calls)
        \<and> CopyToEmu (p_vaddr truncated_seg0) (unat (p_offset truncated_seg0))
                      (p_filesz truncated_seg0) \<in> set calls"
    by blast
  then have "\<exists>calls. LoadIntoMemory 0x1800000 truncated_reader False = Some (True, calls)
          \<and> CopyToEmu 0x80004000 84 16 \<in> set calls"
    by (auto simp: truncated_seg0_def)
  with nrel truncated_hdr table show ?thesis by simp
qed

text \<open>
  A segment whose declared file extent exceeds the buffer: the load is not refused, it
  returns true after a copy of the sixteen declared bytes.
\<close>

lemma truncated_load:
  "LoadIntoMemory 0x1800000 truncated_reader False = Some (True, [CopyToEmu 0x80004000 84 16])"
  by code_simp

lemma Initialize_truncated: "Initialize truncated_image = Some truncated_reader"
  by code_simp

theorem LoadIntoMemory_truncated_counterexample:
  "Initialize truncated_image = Some truncated_reader
   \<and> segments_idx truncated_reader 0 = Some truncated_seg0
   \<and> p_type truncated_seg0 = PT_LOAD
   \<and> length (m_bytes truncated_reader) < unat (p_offset truncated_seg0) + unat (p_filesz truncated_seg0)
   \<and> LoadIntoMemory 0x1800000 truncated_reader False = Some (True, [CopyToEmu 0x80004000 84 16])"
proof -
  have "p_type truncated_seg0 = PT_LOAD" by (simp add: truncated_seg0_def PT_LOAD_def)
  moreover have "length (m_bytes truncated_reader)
                 < unat (p_offset truncated_seg0) + unat (p_filesz truncated_seg0)"
    by (simp add: truncated_reader_def truncated_seg0_def)
  ultimately show ?thesis
    using Initialize_truncated truncated_seg0 truncated_load by simp
qed

section \<open>Looking a section up by name\<close>







section \<open>Extracting the symbols\<close>

lemma LoadSymbols_loop_step:
  assumes "LoadSymbols_loop SA r sb st n i (hs, db) = Some res" and "i < n"
  shows "\<exists>e. symtab_idx r st i = Some e
           \<and> (LoadSymbols_loop SA r sb st n (i + 1) (hs, db) = Some res
              \<or> (\<exists>c. emitted_from e c
                    \<and> LoadSymbols_loop SA r sb st n (i + 1) (True, db @ [c]) = Some res))"
proof -
  from assms obtain e where e: "symtab_idx r st i = Some e"
    by (subst (asm) LoadSymbols_loop.simps) (auto split: bind_splits)
  have "LoadSymbols_loop SA r sb st n (i + 1) (hs, db) = Some res
        \<or> (\<exists>c. emitted_from e c
              \<and> LoadSymbols_loop SA r sb st n (i + 1) (True, db @ [c]) = Some res)"
    using assms e
    by (subst (asm) LoadSymbols_loop.simps)
       (auto simp: Let_def split: bind_splits if_splits)
  with e show ?thesis by blast
qed

lemma LoadSymbols_loop_inv:
  "LoadSymbols_loop SA r sb st n i (hs, db) = Some (hs', db') \<Longrightarrow>
   \<exists>new. db' = db @ new \<and> (hs' \<longleftrightarrow> hs \<or> new \<noteq> [])
        \<and> (\<forall>c\<in>set new. \<exists>j e. i \<le> j \<and> j < n \<and> symtab_idx r st j = Some e \<and> emitted_from e c)"
proof (induction "n - i" arbitrary: i hs db)
  case 0
  then have "hs' = hs \<and> db' = db"
    by (subst (asm) LoadSymbols_loop.simps) simp
  then show ?case by simp
next
  case (Suc d)
  then have lt: "i < n" by simp
  have d: "d = n - (i + 1)" using Suc(2) by simp
  from LoadSymbols_loop_step [OF Suc(3) lt] obtain e where e: "symtab_idx r st i = Some e"
    and alt: "LoadSymbols_loop SA r sb st n (i + 1) (hs, db) = Some (hs', db')
              \<or> (\<exists>c. emitted_from e c
                    \<and> LoadSymbols_loop SA r sb st n (i + 1) (True, db @ [c]) = Some (hs', db'))"
    by blast
  from alt show ?case
  proof
    assume "LoadSymbols_loop SA r sb st n (i + 1) (hs, db) = Some (hs', db')"
    from Suc(1) [OF d this] obtain new where new: "db' = db @ new" "hs' \<longleftrightarrow> hs \<or> new \<noteq> []"
      "\<forall>c\<in>set new. \<exists>j e. i + 1 \<le> j \<and> j < n \<and> symtab_idx r st j = Some e \<and> emitted_from e c"
      by blast
    from new(3) have "\<forall>c\<in>set new. \<exists>j e. i \<le> j \<and> j < n \<and> symtab_idx r st j = Some e \<and> emitted_from e c"
      by (meson add_leD1)
    with new(1,2) show ?thesis by blast
  next
    assume "\<exists>c. emitted_from e c
              \<and> LoadSymbols_loop SA r sb st n (i + 1) (True, db @ [c]) = Some (hs', db')"
    then obtain c where c: "emitted_from e c"
      and rest: "LoadSymbols_loop SA r sb st n (i + 1) (True, db @ [c]) = Some (hs', db')"
      by blast
    from Suc(1) [OF d rest] obtain new where new: "db' = (db @ [c]) @ new" "hs'"
      "\<forall>c\<in>set new. \<exists>j e. i + 1 \<le> j \<and> j < n \<and> symtab_idx r st j = Some e \<and> emitted_from e c"
      by blast
    from new(3) have "\<forall>c\<in>set new. \<exists>j e. i \<le> j \<and> j < n \<and> symtab_idx r st j = Some e \<and> emitted_from e c"
      by (meson add_leD1)
    moreover have "\<exists>j e'. i \<le> j \<and> j < n \<and> symtab_idx r st j = Some e' \<and> emitted_from e' c"
      using e c lt by blast
    ultimately have "\<forall>c'\<in>set (c # new). \<exists>j e. i \<le> j \<and> j < n \<and> symtab_idx r st j = Some e \<and> emitted_from e c'"
      by simp
    moreover have "db' = db @ (c # new)" using new(1) by simp
    ultimately show ?thesis using new(2) by blast
  qed
qed

lemma LoadSymbols_cases:
  assumes "LoadSymbols G SA r = Some (b, db)"
  obtains (absent) "GetSectionByName G r symtab_name 0 = Some (- 1)" "\<not> b" "db = [Index]"
  | (present) sec new where "GetSectionByName G r symtab_name 0 = Some sec" "sec \<noteq> - 1"
      "db = new @ [Index]" "b \<longleftrightarrow> new \<noteq> []"
      "\<forall>c\<in>set new. \<exists>j e. symtab_idx r (G sec) j = Some e \<and> emitted_from e c"
proof -
  from assms obtain sec where sec: "GetSectionByName G r symtab_name 0 = Some sec"
    by (auto simp: LoadSymbols_def split: bind_splits)
  show thesis
  proof (cases "sec = - 1")
    case True
    with assms sec have "\<not> b" "db = [Index]" by (auto simp: LoadSymbols_def)
    with sec True show thesis by (intro absent) auto
  next
    case False
    with assms sec obtain s new where s: "sections_idx r (nat sec) = Some s"
      and loop: "LoadSymbols_loop SA r (G (sint (sh_link s))) (G sec)
                   (unat (sh_size s) div sizeof_Sym) 0 (False, []) = Some (b, new)"
      and db: "db = new @ [Index]"
      by (auto simp: LoadSymbols_def Let_def split: bind_splits)
    from LoadSymbols_loop_inv [OF loop]
    have "b \<longleftrightarrow> new \<noteq> []"
      and "\<forall>c\<in>set new. \<exists>j e. symtab_idx r (G sec) j = Some e \<and> emitted_from e c"
      by (simp, fastforce)
    with sec False db show thesis by (intro present) auto
  qed
qed

text \<open>
  Claim C5. Every call \<open>AddKnownSymbol\<close> that \<open>LoadSymbols\<close> makes stems from an entry of the
  symbol table whose declared size is not zero and whose type nibble is \<open>STT_OBJECT\<close>, passed
  as \<open>Data\<close>, or \<open>STT_FUNC\<close>, passed as \<open>Function\<close>; in particular no symbol of size zero
  reaches the database.
\<close>

theorem LoadSymbols_emits_sized_objects_and_functions:
  assumes "LoadSymbols G SA r = Some (b, db)"
  shows "(\<forall>c\<in>set db. c = Index
            \<or> (\<exists>sec j e. GetSectionByName G r symtab_name 0 = Some sec \<and> sec \<noteq> - 1
                  \<and> symtab_idx r (G sec) j = Some e \<and> emitted_from e c))
       \<and> (\<forall>v sz name ty. AddKnownSymbol v sz name ty \<in> set db \<longrightarrow> sz \<noteq> 0)"
proof -
  have first: "\<forall>c\<in>set db. c = Index
            \<or> (\<exists>sec j e. GetSectionByName G r symtab_name 0 = Some sec \<and> sec \<noteq> - 1
                  \<and> symtab_idx r (G sec) j = Some e \<and> emitted_from e c)"
    using assms
  proof (cases rule: LoadSymbols_cases)
    case absent
    then show ?thesis by simp
  next
    case (present sec new)
    then show ?thesis by auto
  qed
  have "sz \<noteq> 0" if "AddKnownSymbol v sz name ty \<in> set db" for v sz name ty
  proof -
    from first that obtain e where "emitted_from e (AddKnownSymbol v sz name ty)" by blast
    then show ?thesis by auto
  qed
  with first show ?thesis by blast
qed



section \<open>The platform heuristic\<close>

lemma flip_bit_match:
  fixes w m p :: u32
  assumes "w AND m = p"
  shows "(w XOR push_bit k 1) AND m = p \<longleftrightarrow> \<not> bit m k \<or> 32 \<le> k"
proof
  assume a: "(w XOR push_bit k 1) AND m = p"
  show "\<not> bit m k \<or> 32 \<le> k"
  proof (rule ccontr)
    assume "\<not> (\<not> bit m k \<or> 32 \<le> k)"
    then have m: "bit m k" and k: "k < 32" by auto
    from a assms have "bit ((w XOR push_bit k 1) AND m) k = bit (w AND m) k" by simp
    with m k show False by (simp add: bit_simps)
  qed
next
  assume n: "\<not> bit m k \<or> 32 \<le> k"
  have "(w XOR push_bit k 1) AND m = w AND m"
    by (rule bit_word_eqI) (use n in \<open>auto simp: bit_simps\<close>)
  with assms show "(w XOR push_bit k 1) AND m = p" by simp
qed

lemma IsWii_words_iff:
  "IsWii_words buf code n j = Some b \<Longrightarrow>
   b \<longleftrightarrow> (\<exists>k w. j \<le> k \<and> k < n \<and> code_idx buf code k = Some w \<and> hid4_match w)"
proof (induction "n - j" arbitrary: j)
  case 0
  then show ?case by (subst (asm) IsWii_words.simps) auto
next
  case (Suc d)
  then have lt: "j < n" by simp
  from Suc(3) lt obtain w where w: "code_idx buf code j = Some w"
    by (subst (asm) IsWii_words.simps) (auto split: bind_splits)
  show ?case
  proof (cases "hid4_match w")
    case True
    with Suc(3) lt w have "b" by (subst (asm) IsWii_words.simps) (simp add: hid4_match_def)
    with True w lt show ?thesis by auto
  next
    case False
    with Suc(3) lt w have rest: "IsWii_words buf code n (j + 1) = Some b"
      by (subst (asm) IsWii_words.simps) (simp add: hid4_match_def)
    have "d = n - (j + 1)" using Suc(2) by simp
    from Suc(1) [OF this rest]
    have "b \<longleftrightarrow> (\<exists>k w. j + 1 \<le> k \<and> k < n \<and> code_idx buf code k = Some w \<and> hid4_match w)" .
    also have "\<dots> \<longleftrightarrow> (\<exists>k w. j \<le> k \<and> k < n \<and> code_idx buf code k = Some w \<and> hid4_match w)"
    proof
      assume "\<exists>k w. j + 1 \<le> k \<and> k < n \<and> code_idx buf code k = Some w \<and> hid4_match w"
      then show "\<exists>k w. j \<le> k \<and> k < n \<and> code_idx buf code k = Some w \<and> hid4_match w"
        by (meson add_leD1)
    next
      assume "\<exists>k w. j \<le> k \<and> k < n \<and> code_idx buf code k = Some w \<and> hid4_match w"
      then obtain k w' where k: "j \<le> k" "k < n" "code_idx buf code k = Some w'" "hid4_match w'"
        by blast
      with w False have "k \<noteq> j" by auto
      with k show "\<exists>k w. j + 1 \<le> k \<and> k < n \<and> code_idx buf code k = Some w \<and> hid4_match w"
        by (intro exI [of _ k] exI [of _ w']) simp
    qed
    finally show ?thesis .
  qed
qed

lemma IsWii_segments_step:
  assumes "IsWii_segments r n i = Some b" and "i < n"
  shows "(b \<and> (\<exists>j w. code_word r i j = Some w \<and> hid4_match w))
       \<or> ((\<forall>j w. code_word r i j = Some w \<longrightarrow> \<not> hid4_match w)
          \<and> IsWii_segments r n (i + 1) = Some b)"
proof -
  from assms obtain c where c: "IsCodeSegment r i = Some c"
    by (subst (asm) IsWii_segments.simps) (auto split: bind_splits)
  show ?thesis
  proof (cases c)
    case False
    with assms c have "IsWii_segments r n (i + 1) = Some b"
      by (subst (asm) IsWii_segments.simps) simp
    moreover have "code_word r i j = None" for j
      using c False by (simp add: code_word_def split: bind_splits)
    ultimately show ?thesis by simp
  next
    case True
    with assms c obtain code sz found where code: "GetSegmentPtr r i = Some code"
      and sz: "GetSegmentSize r i = Some sz"
      and found: "IsWii_words (m_bytes r) code (sz div 4) 0 = Some found"
      by (subst (asm) IsWii_segments.simps) (auto split: bind_splits)
    have cw: "code_word r i j = (if j < sz div 4 then code_idx (m_bytes r) code j else None)" for j
      using c True code sz by (simp add: code_word_def)
    from IsWii_words_iff [OF found]
    have f: "found \<longleftrightarrow> (\<exists>j w. code_word r i j = Some w \<and> hid4_match w)"
      by (auto simp: cw split: if_splits)
    show ?thesis
    proof (cases found)
      case True
      with assms c \<open>c\<close> code sz found have "b"
        by (subst (asm) IsWii_segments.simps) simp
      with True f show ?thesis by blast
    next
      case False
      with assms c \<open>c\<close> code sz found have "IsWii_segments r n (i + 1) = Some b"
        by (subst (asm) IsWii_segments.simps) simp
      with False f show ?thesis by blast
    qed
  qed
qed

lemma IsWii_segments_iff:
  "IsWii_segments r n i = Some b \<Longrightarrow>
   b \<longleftrightarrow> (\<exists>k j w. i \<le> k \<and> k < n \<and> code_word r k j = Some w \<and> hid4_match w)"
proof (induction "n - i" arbitrary: i)
  case 0
  then show ?case by (subst (asm) IsWii_segments.simps) auto
next
  case (Suc d)
  then have lt: "i < n" by simp
  have d: "d = n - (i + 1)" using Suc(2) by simp
  from IsWii_segments_step [OF Suc(3) lt] show ?case
  proof
    assume "b \<and> (\<exists>j w. code_word r i j = Some w \<and> hid4_match w)"
    with lt show ?thesis by auto
  next
    assume a: "(\<forall>j w. code_word r i j = Some w \<longrightarrow> \<not> hid4_match w)
               \<and> IsWii_segments r n (i + 1) = Some b"
    from Suc(1) [OF d] a
    have "b \<longleftrightarrow> (\<exists>k j w. i + 1 \<le> k \<and> k < n \<and> code_word r k j = Some w \<and> hid4_match w)"
      by simp
    also have "\<dots> \<longleftrightarrow> (\<exists>k j w. i \<le> k \<and> k < n \<and> code_word r k j = Some w \<and> hid4_match w)"
    proof
      assume "\<exists>k j w. i + 1 \<le> k \<and> k < n \<and> code_word r k j = Some w \<and> hid4_match w"
      then show "\<exists>k j w. i \<le> k \<and> k < n \<and> code_word r k j = Some w \<and> hid4_match w"
        by (meson add_leD1)
    next
      assume "\<exists>k j w. i \<le> k \<and> k < n \<and> code_word r k j = Some w \<and> hid4_match w"
      then obtain k j w where k: "i \<le> k" "k < n" "code_word r k j = Some w" "hid4_match w"
        by blast
      with a have "k \<noteq> i" by auto
      with k show "\<exists>k j w. i + 1 \<le> k \<and> k < n \<and> code_word r k j = Some w \<and> hid4_match w"
        by (intro exI [of _ k] exI [of _ j] exI [of _ w]) simp
    qed
    finally show ?thesis .
  qed
qed

lemma IsWii_iff:
  assumes "IsWii r = Some b" and "header r = Some h"
  shows "b \<longleftrightarrow> (\<exists>i j w. i < unat (e_phnum h) \<and> code_word r i j = Some w \<and> hid4_match w)"
proof -
  from assms have "IsWii_segments r (unat (e_phnum h)) 0 = Some b"
    by (simp add: IsWii_def GetNumSegments_def)
  from IsWii_segments_iff [OF this] show ?thesis by simp
qed

text \<open>
  Claim C7, as amended. \<open>IsWii\<close> returns true when a code segment holds an instruction word
  that matches the mask and pattern. For an input that is the same except that one bit of
  this word, the only matching one, is altered, it returns false exactly when the bit lies
  inside the mask; altering a bit outside the mask leaves the result true.
\<close>

theorem IsWii_one_bit:
  assumes ret: "IsWii r = Some b" and ret': "IsWii r' = Some b'"
    and hdr: "header r = Some h" and hdr': "header r' = Some h'"
    and num: "e_phnum h' = e_phnum h"
    and i0: "i0 < unat (e_phnum h)"
    and w: "code_word r i0 j0 = Some w" and match: "hid4_match w"
    and w': "code_word r' i0 j0 = Some (w XOR push_bit k 1)" and k: "k < 32"
    and others: "\<And>i j. i < unat (e_phnum h) \<Longrightarrow> (i, j) \<noteq> (i0, j0) \<Longrightarrow>
                   code_word r' i j = code_word r i j"
    and only: "\<And>i j v. i < unat (e_phnum h) \<Longrightarrow> (i, j) \<noteq> (i0, j0) \<Longrightarrow>
                 code_word r i j = Some v \<Longrightarrow> \<not> hid4_match v"
  shows "b \<and> (b' \<longleftrightarrow> \<not> bit HID4_mask k)"
proof
  show "b" using IsWii_iff [OF ret hdr] i0 w match by blast
  have flip: "hid4_match (w XOR push_bit k 1) \<longleftrightarrow> \<not> bit HID4_mask k"
    using flip_bit_match [of w HID4_mask HID4_pattern k] match k
    by (simp add: hid4_match_def)
  have "b' \<longleftrightarrow> (\<exists>i j v. i < unat (e_phnum h) \<and> code_word r' i j = Some v \<and> hid4_match v)"
    using IsWii_iff [OF ret' hdr'] num by simp
  also have "\<dots> \<longleftrightarrow> hid4_match (w XOR push_bit k 1)"
  proof
    assume "\<exists>i j v. i < unat (e_phnum h) \<and> code_word r' i j = Some v \<and> hid4_match v"
    then obtain i j v where v: "i < unat (e_phnum h)" "code_word r' i j = Some v" "hid4_match v"
      by blast
    show "hid4_match (w XOR push_bit k 1)"
    proof (cases "(i, j) = (i0, j0)")
      case True
      with v w' show ?thesis by simp
    next
      case False
      with others [OF v(1) False] only [OF v(1) False] v show ?thesis by simp
    qed
  next
    assume "hid4_match (w XOR push_bit k 1)"
    with i0 w' show "\<exists>i j v. i < unat (e_phnum h) \<and> code_word r' i j = Some v \<and> hid4_match v"
      by blast
  qed
  finally show "b' \<longleftrightarrow> \<not> bit HID4_mask k" using flip by simp
qed

section \<open>Construction performs no validation\<close>

text \<open>
  Stores and loads of the integer fields: a field read back from where it was stored is the
  value stored, and a store leaves every field outside its bytes alone.
\<close>

lemma join16:
  fixes w :: u16
  shows "ucast (ucast w :: u8) OR push_bit 8 (ucast (ucast (drop_bit 8 w) :: u8)) = w"
  by (rule bit_word_eqI) (auto simp: bit_simps)

lemma join32:
  fixes w :: u32
  shows "ucast (ucast w :: u8) OR push_bit 8 (ucast (ucast (drop_bit 8 w) :: u8))
         OR push_bit 16 (ucast (ucast (drop_bit 16 w) :: u8))
         OR push_bit 24 (ucast (ucast (drop_bit 24 w) :: u8)) = w"
proof (rule bit_word_eqI)
  fix n :: nat
  assume "n < LENGTH(32)"
  then have n: "n < 32" by simp
  consider "n < 8" | "8 \<le> n" "n < 16" | "16 \<le> n" "n < 24" | "24 \<le> n" by linarith
  then show "bit (ucast (ucast w :: u8) OR push_bit 8 (ucast (ucast (drop_bit 8 w) :: u8))
         OR push_bit 16 (ucast (ucast (drop_bit 16 w) :: u8))
         OR push_bit 24 (ucast (ucast (drop_bit 24 w) :: u8)) :: u32) n = bit w n"
    using n by cases (auto simp: bit_simps)
qed


lemma length_st16 [simp]: "length (st16 buf off w) = length buf"
  by (simp add: st16_def)

lemma length_st32 [simp]: "length (st32 buf off w) = length buf"
  by (simp add: st32_def)

lemma length_put_Ehdr [simp]: "length (put_Ehdr buf off h) = length buf"
  by (simp add: put_Ehdr_def)

lemma length_put_Phdr [simp]: "length (put_Phdr buf off p) = length buf"
  by (simp add: put_Phdr_def)

lemma length_put_Shdr [simp]: "length (put_Shdr buf off s) = length buf"
  by (simp add: put_Shdr_def)

lemma ld16_st16_same: "off + 2 \<le> length buf \<Longrightarrow> ld16 (st16 buf off w) off = w"
  by (simp add: ld16_def st16_def join16)

lemma ld32_st32_same: "off + 4 \<le> length buf \<Longrightarrow> ld32 (st32 buf off w) off = w"
  by (simp add: ld32_def st32_def join32)

lemma nth_st16_other: "k < off \<or> off + 2 \<le> k \<Longrightarrow> st16 buf off w ! k = buf ! k"
  by (auto simp: st16_def)

lemma nth_st32_other: "k < off \<or> off + 4 \<le> k \<Longrightarrow> st32 buf off w ! k = buf ! k"
  by (auto simp: st32_def)

lemma ld16_st16_other:
  "k + 2 \<le> off \<or> off + 2 \<le> k \<Longrightarrow> ld16 (st16 buf off w) k = ld16 buf k"
  by (auto simp: ld16_def nth_st16_other)

lemma ld16_st32_other:
  "k + 2 \<le> off \<or> off + 4 \<le> k \<Longrightarrow> ld16 (st32 buf off w) k = ld16 buf k"
  by (auto simp: ld16_def nth_st32_other)

lemma ld32_st16_other:
  "k + 4 \<le> off \<or> off + 2 \<le> k \<Longrightarrow> ld32 (st16 buf off w) k = ld32 buf k"
  by (auto simp: ld32_def nth_st16_other)

lemma ld32_st32_other:
  "k + 4 \<le> off \<or> off + 4 \<le> k \<Longrightarrow> ld32 (st32 buf off w) k = ld32 buf k"
  by (auto simp: ld32_def nth_st32_other)

lemma take_st16: "n \<le> off \<Longrightarrow> take n (st16 buf off w) = take n buf"
  by (simp add: st16_def)

lemma take_st32: "n \<le> off \<Longrightarrow> take n (st32 buf off w) = take n buf"
  by (simp add: st32_def)

lemma get_put_Ehdr:
  assumes "sizeof_Ehdr \<le> length buf"
  shows "get_Ehdr (put_Ehdr buf 0 h) 0 = Some (h\<lparr>e_ident := take 16 buf\<rparr>)"
  using assms
  by (cases h)
     (simp add: get_Ehdr_def put_Ehdr_def sizeof_Ehdr_def ld16_st16_same ld32_st32_same
        ld16_st16_other ld16_st32_other ld32_st16_other ld32_st32_other take_st16 take_st32)

lemma get_Ehdr_put_Phdr:
  assumes "sizeof_Ehdr \<le> off"
  shows "get_Ehdr (put_Phdr buf off p) 0 = get_Ehdr buf 0"
  using assms
  by (simp add: get_Ehdr_def put_Phdr_def sizeof_Ehdr_def
        ld16_st32_other ld32_st32_other take_st32)

lemma get_Ehdr_put_Shdr:
  assumes "sizeof_Ehdr \<le> off"
  shows "get_Ehdr (put_Shdr buf off p) 0 = get_Ehdr buf 0"
  using assms
  by (simp add: get_Ehdr_def put_Shdr_def sizeof_Ehdr_def
        ld16_st32_other ld32_st32_other take_st32)


lemma swap_segments_ok:
  assumes "get_Ehdr buf 0 = Some h"
    and "unat (e_phnum h) \<le> i
         \<or> (sizeof_Ehdr \<le> segs \<and> segs + sizeof_Phdr * unat (e_phnum h) \<le> length buf)"
  shows "\<exists>buf'. swap_segments buf segs i = Some buf' \<and> get_Ehdr buf' 0 = Some h
               \<and> length buf' = length buf"
  using assms
proof (induction "unat (e_phnum h) - i" arbitrary: buf i)
  case 0
  then have "\<not> i < unat (e_phnum h)" by simp
  with 0(2) show ?case by (subst swap_segments.simps) simp
next
  case (Suc d)
  then have lt: "i < unat (e_phnum h)" by simp
  with Suc(4) have seg: "sizeof_Ehdr \<le> segs"
    and tab: "segs + sizeof_Phdr * unat (e_phnum h) \<le> length buf" by auto
  from lt have "sizeof_Phdr * i + sizeof_Phdr \<le> sizeof_Phdr * unat (e_phnum h)"
    by (metis Suc_leI mult_Suc_right mult_le_mono2 add.commute)
  with tab have inb: "segs + sizeof_Phdr * i + sizeof_Phdr \<le> length buf" by simp
  then obtain p where p: "get_Phdr buf (segs + sizeof_Phdr * i) = Some p"
    by (simp add: get_Phdr_def)
  let ?buf1 = "put_Phdr buf (segs + sizeof_Phdr * i) (byteswapSegment p)"
  have h1: "get_Ehdr ?buf1 0 = Some h"
    using seg Suc(3) by (simp add: get_Ehdr_put_Phdr)
  have d: "d = unat (e_phnum h) - (i + 1)" using Suc(2) by simp
  have "unat (e_phnum h) \<le> i + 1
        \<or> (sizeof_Ehdr \<le> segs \<and> segs + sizeof_Phdr * unat (e_phnum h) \<le> length ?buf1)"
    using seg tab by simp
  from Suc(1) [OF d h1 this] obtain buf' where
    "swap_segments ?buf1 segs (i + 1) = Some buf'" "get_Ehdr buf' 0 = Some h"
    "length buf' = length buf"
    by auto
  with Suc(3) lt p show ?case by (subst swap_segments.simps) simp
qed

lemma swap_sections_ok:
  assumes "get_Ehdr buf 0 = Some h"
    and "unat (e_shnum h) \<le> i
         \<or> (sizeof_Ehdr \<le> secs \<and> secs + sizeof_Shdr * unat (e_shnum h) \<le> length buf)"
  shows "\<exists>buf'. swap_sections buf secs i = Some buf' \<and> get_Ehdr buf' 0 = Some h
               \<and> length buf' = length buf"
  using assms
proof (induction "unat (e_shnum h) - i" arbitrary: buf i)
  case 0
  then have "\<not> i < unat (e_shnum h)" by simp
  with 0(2) show ?case by (subst swap_sections.simps) simp
next
  case (Suc d)
  then have lt: "i < unat (e_shnum h)" by simp
  with Suc(4) have sec: "sizeof_Ehdr \<le> secs"
    and tab: "secs + sizeof_Shdr * unat (e_shnum h) \<le> length buf" by auto
  from lt have "sizeof_Shdr * i + sizeof_Shdr \<le> sizeof_Shdr * unat (e_shnum h)"
    by (metis Suc_leI mult_Suc_right mult_le_mono2 add.commute)
  with tab have inb: "secs + sizeof_Shdr * i + sizeof_Shdr \<le> length buf" by simp
  then obtain s where s: "get_Shdr buf (secs + sizeof_Shdr * i) = Some s"
    by (simp add: get_Shdr_def)
  let ?buf1 = "put_Shdr buf (secs + sizeof_Shdr * i) (byteswapSection s)"
  have h1: "get_Ehdr ?buf1 0 = Some h"
    using sec Suc(3) by (simp add: get_Ehdr_put_Shdr)
  have d: "d = unat (e_shnum h) - (i + 1)" using Suc(2) by simp
  have "unat (e_shnum h) \<le> i + 1
        \<or> (sizeof_Ehdr \<le> secs \<and> secs + sizeof_Shdr * unat (e_shnum h) \<le> length ?buf1)"
    using sec tab by simp
  from Suc(1) [OF d h1 this] obtain buf' where
    "swap_sections ?buf1 secs (i + 1) = Some buf'" "get_Ehdr buf' 0 = Some h"
    "length buf' = length buf"
    by auto
  with Suc(3) lt s show ?case by (subst swap_sections.simps) simp
qed

text \<open>
  Claim C3, as amended. \<open>Initialize\<close> has no failure result and never looks at the
  identification bytes. Whenever the buffer holds a whole header and each table the
  normalized header declares is empty or lies in the buffer behind the header, construction
  succeeds: the header is normalized, the entry point is taken from it and the image is
  classified by its type, whatever the identification bytes are.
\<close>

theorem Initialize_ignores_identification:
  assumes raw: "get_Ehdr buf 0 = Some h0" and h: "h = byteswapHeader h0"
    and ph: "unat (e_phnum h) = 0
             \<or> (sizeof_Ehdr \<le> unat (e_phoff h)
                 \<and> unat (e_phoff h) + sizeof_Phdr * unat (e_phnum h) \<le> length buf)"
    and sh: "unat (e_shnum h) = 0
             \<or> (sizeof_Ehdr \<le> unat (e_shoff h)
                 \<and> unat (e_shoff h) + sizeof_Shdr * unat (e_shnum h) \<le> length buf)"
  shows "\<exists>r. Initialize buf = Some r \<and> header r = Some h
            \<and> entryPoint r = e_entry h \<and> bRelocate r = (e_type h \<noteq> ET_EXEC)"
proof -
  let ?buf1 = "put_Ehdr buf 0 (byteswapHeader h0)"
  from raw have len: "sizeof_Ehdr \<le> length buf" and id: "e_ident h0 = take 16 buf"
    by (auto simp: get_Ehdr_def split: if_splits)
  have "e_ident h = take 16 buf" using id h by (simp add: byteswapHeader_def)
  then have "h\<lparr>e_ident := take 16 buf\<rparr> = h" by (cases h) simp
  then have h1: "get_Ehdr ?buf1 0 = Some h"
    using get_put_Ehdr [OF len, of h] h by simp
  from ph have "unat (e_phnum h) \<le> 0
        \<or> (sizeof_Ehdr \<le> unat (e_phoff h)
            \<and> unat (e_phoff h) + sizeof_Phdr * unat (e_phnum h) \<le> length ?buf1)"
    by simp
  from swap_segments_ok [OF h1 this] obtain buf2 where
    b2: "swap_segments ?buf1 (unat (e_phoff h)) 0 = Some buf2" "get_Ehdr buf2 0 = Some h"
      "length buf2 = length ?buf1"
    by auto
  from sh b2(3) have "unat (e_shnum h) \<le> 0
        \<or> (sizeof_Ehdr \<le> unat (e_shoff h)
            \<and> unat (e_shoff h) + sizeof_Shdr * unat (e_shnum h) \<le> length buf2)"
    by simp
  from swap_sections_ok [OF b2(2) this] obtain buf3 where
    b3: "swap_sections buf2 (unat (e_shoff h)) 0 = Some buf3" "get_Ehdr buf3 0 = Some h"
    by auto
  let ?r = "\<lparr>m_bytes = buf3, segments = unat (e_phoff h), sections = unat (e_shoff h),
             entryPoint = e_entry h, bRelocate = (e_type h \<noteq> ET_EXEC)\<rparr>"
  have "Initialize buf = Some ?r"
    using raw h1 b2(1) b3 by (simp add: Initialize_def)
  moreover have "header ?r = Some h" using b3(2) by (simp add: header_def)
  ultimately show ?thesis by simp
qed

lemma badmagic_raw: "get_Ehdr badmagic_image 0 = Some badmagic_raw_header"
  by code_simp

lemma badmagic_init: "Initialize badmagic_image = Some badmagic_reader"
  by code_simp

theorem Initialize_ignores_identification_witness:
  "get_Ehdr badmagic_image 0 = Some badmagic_raw_header
   \<and> badmagic_header = byteswapHeader badmagic_raw_header
   \<and> take 4 (e_ident badmagic_header) \<noteq> ELF_magic
   \<and> (\<exists>r. Initialize badmagic_image = Some r \<and> header r = Some badmagic_header
          \<and> entryPoint r = 0x80004000 \<and> \<not> bRelocate r)"
proof -
  have h: "badmagic_header = byteswapHeader badmagic_raw_header"
    by (simp add: badmagic_header_def badmagic_raw_header_def byteswapHeader_def
          bswap16_def bswap32_def swap16_def swap32_def)
  have ph: "unat (e_phnum badmagic_header) = 0
             \<or> (sizeof_Ehdr \<le> unat (e_phoff badmagic_header)
                 \<and> unat (e_phoff badmagic_header)
                     + sizeof_Phdr * unat (e_phnum badmagic_header) \<le> length badmagic_image)"
    by (simp add: badmagic_header_def badmagic_image_def sizeof_Ehdr_def sizeof_Phdr_def)
  have sh: "unat (e_shnum badmagic_header) = 0
             \<or> (sizeof_Ehdr \<le> unat (e_shoff badmagic_header)
                 \<and> unat (e_shoff badmagic_header)
                     + sizeof_Shdr * unat (e_shnum badmagic_header) \<le> length badmagic_image)"
    by (simp add: badmagic_header_def)
  have m: "take 4 (e_ident badmagic_header) \<noteq> ELF_magic"
    by (simp add: badmagic_header_def ELF_magic_def)
  from Initialize_ignores_identification [OF badmagic_raw h ph sh]
  have "\<exists>r. Initialize badmagic_image = Some r \<and> header r = Some badmagic_header
          \<and> entryPoint r = 0x80004000 \<and> \<not> bRelocate r"
    by (simp add: badmagic_header_def ET_EXEC_def)
  with badmagic_raw h m show ?thesis by simp
qed


text \<open>
  The claim as first stated fails: an image of 88 bytes that does not start with the ELF
  signature is accepted.
\<close>

theorem Initialize_bad_identification_counterexample:
  "take 4 badmagic_image \<noteq> ELF_magic
   \<and> sizeof_Ehdr \<le> length badmagic_image
   \<and> Initialize badmagic_image = Some badmagic_reader"
proof -
  have "take 4 badmagic_image \<noteq> ELF_magic"
    by (simp add: badmagic_image_def ELF_magic_def)
  moreover have "sizeof_Ehdr \<le> length badmagic_image"
    by (simp add: badmagic_image_def sizeof_Ehdr_def)
  ultimately show ?thesis using badmagic_init by simp
qed

section \<open>The theorems at the fixtures\<close>







lemma symbols_load:
  "LoadSymbols (section_data symbols_reader) [] symbols_reader = Some (True, symbols_db)"
  by code_simp

theorem LoadSymbols_emits_sized_objects_and_functions_witness:
  "LoadSymbols (section_data symbols_reader) [] symbols_reader = Some (True, symbols_db)
   \<and> AddKnownSymbol 0x80004000 32 name_main Function \<in> set symbols_db
   \<and> (\<exists>sec j e. GetSectionByName (section_data symbols_reader) symbols_reader symtab_name 0 = Some sec
          \<and> sec \<noteq> - 1
          \<and> symtab_idx symbols_reader (section_data symbols_reader sec) j = Some e
          \<and> emitted_from e (AddKnownSymbol 0x80004000 32 name_main Function))"
proof -
  have m: "AddKnownSymbol 0x80004000 32 name_main Function \<in> set symbols_db"
    by (simp add: symbols_db_def)
  from LoadSymbols_emits_sized_objects_and_functions [OF symbols_load] m
  have "\<exists>sec j e. GetSectionByName (section_data symbols_reader) symbols_reader symtab_name 0 = Some sec
          \<and> sec \<noteq> - 1
          \<and> symtab_idx symbols_reader (section_data symbols_reader sec) j = Some e
          \<and> emitted_from e (AddKnownSymbol 0x80004000 32 name_main Function)"
    by blast
  with symbols_load m show ?thesis by simp
qed








lemma wii_hdr: "header wii_reader = Some wii_header"
  by code_simp

lemma wii_bit0_hdr: "header wii_bit0_reader = Some wii_header"
  by code_simp

lemma wii_ret: "IsWii wii_reader = Some True"
  by code_simp

lemma wii_bit0_ret: "IsWii wii_bit0_reader = Some False"
  by code_simp

lemma wii_seg:
  "IsCodeSegment wii_reader 0 = Some True" "GetSegmentPtr wii_reader 0 = Some 84"
  "GetSegmentSize wii_reader 0 = Some 8"
  by code_simp+

lemma wii_bit0_seg:
  "IsCodeSegment wii_bit0_reader 0 = Some True" "GetSegmentPtr wii_bit0_reader 0 = Some 84"
  "GetSegmentSize wii_bit0_reader 0 = Some 8"
  by code_simp+

lemma wii_words:
  "code_idx (m_bytes wii_reader) 84 0 = Some 0x60"
  "code_idx (m_bytes wii_reader) 84 (Suc 0) = Some 0xa6fb137c"
  by code_simp+

lemma wii_bit0_words:
  "code_idx (m_bytes wii_bit0_reader) 84 0 = Some 0x60"
  "code_idx (m_bytes wii_bit0_reader) 84 (Suc 0) = Some 0xa7fb137c"
  by code_simp+

lemma wii_code_word:
  "code_word wii_reader 0 j = (if j < 2 then code_idx (m_bytes wii_reader) 84 j else None)"
  by (simp add: code_word_def wii_seg)

lemma wii_bit0_code_word:
  "code_word wii_bit0_reader 0 j =
     (if j < 2 then code_idx (m_bytes wii_bit0_reader) 84 j else None)"
  by (simp add: code_word_def wii_bit0_seg)

theorem IsWii_one_bit_witness:
  "IsWii wii_reader = Some True \<and> IsWii wii_bit0_reader = Some False
   \<and> code_word wii_reader 0 1 = Some 0xa6fb137c \<and> hid4_match 0xa6fb137c
   \<and> code_word wii_bit0_reader 0 1 = Some (0xa6fb137c XOR push_bit 24 1)
   \<and> bit HID4_mask 24"
proof -
  let ?w = "0xa6fb137c :: u32"
  have n: "unat (e_phnum wii_header) = 1" by (simp add: wii_header_def)
  have i0: "0 < unat (e_phnum wii_header)" by (simp add: n)
  have w: "code_word wii_reader 0 1 = Some ?w" by (simp add: wii_code_word wii_words)
  have match: "hid4_match ?w"
    by (simp add: hid4_match_def HID4_mask_def HID4_pattern_def swap32_def)
  have w': "code_word wii_bit0_reader 0 1 = Some (?w XOR push_bit 24 1)"
    by (simp add: wii_bit0_code_word wii_bit0_words)
  have j_cases: "j = 0 \<or> 2 \<le> j" if "(i, j) \<noteq> (0, Suc 0)" "i < unat (e_phnum wii_header)"
    for i j :: nat
    using that by (auto simp: n)
  have others: "code_word wii_bit0_reader i j = code_word wii_reader i j"
    if "i < unat (e_phnum wii_header)" "(i, j) \<noteq> (0, 1)" for i j
  proof -
    from that have i: "i = 0" by (simp add: n)
    from that j_cases [of i j] have "j = 0 \<or> 2 \<le> j" by simp
    then show ?thesis
      by (auto simp: i wii_code_word wii_bit0_code_word wii_words wii_bit0_words)
  qed
  have only: "\<not> hid4_match v"
    if "i < unat (e_phnum wii_header)" "(i, j) \<noteq> (0, 1)" "code_word wii_reader i j = Some v"
    for i j v
  proof -
    from that have i: "i = 0" by (simp add: n)
    from that j_cases [of i j] have "j = 0 \<or> 2 \<le> j" by simp
    with that(3) have "v = 0x60"
      by (auto simp: i wii_code_word wii_words)
    then show ?thesis
      by (simp add: hid4_match_def HID4_mask_def HID4_pattern_def swap32_def)
  qed
  have k: "(24 :: nat) < 32" by simp
  from IsWii_one_bit [OF wii_ret wii_bit0_ret wii_hdr wii_bit0_hdr refl i0 w match w' k others only]
  have "bit HID4_mask 24" by simp
  with wii_ret wii_bit0_ret w match w' show ?thesis by simp
qed

text \<open>
  The claim on the heuristic as first stated fails: bit 21 of the instruction word lies
  outside the mask \<open>0xfc1fffff\<close>, and altering it leaves the result true.
\<close>

lemma wii_bit21_ret: "IsWii wii_bit21_reader = Some True"
  by code_simp

lemma wii_bit21_word: "code_word wii_bit21_reader 0 1 = Some 0xa6fb337c"
  by code_simp

lemma Initialize_wii_bit21: "Initialize wii_bit21_image = Some wii_bit21_reader"
  by code_simp

theorem IsWii_bit_outside_mask_counterexample:
  "Initialize wii_bit21_image = Some wii_bit21_reader
   \<and> IsWii wii_reader = Some True
   \<and> code_word wii_reader 0 1 = Some 0xa6fb137c \<and> hid4_match 0xa6fb137c
   \<and> swap32 0xa6fb137c = 0x7c13fba6
   \<and> m_bytes wii_bit21_reader = (m_bytes wii_reader)[89 := 0x33]
   \<and> code_word wii_bit21_reader 0 1 = Some 0xa6fb337c
   \<and> swap32 0xa6fb337c = 0x7c13fba6 XOR 0x00200000
   \<and> (0x00200000 :: u32) AND 0xfc1fffff = 0
   \<and> IsWii wii_bit21_reader = Some True"
proof -
  have "code_word wii_reader 0 1 = Some 0xa6fb137c"
    by (simp add: wii_code_word wii_words)
  moreover have "hid4_match 0xa6fb137c"
    by (simp add: hid4_match_def HID4_mask_def HID4_pattern_def swap32_def)
  moreover have "swap32 0xa6fb137c = 0x7c13fba6" by (simp add: swap32_def)
  moreover have "swap32 0xa6fb337c = 0x7c13fba6 XOR 0x00200000" by (simp add: swap32_def)
  moreover have "m_bytes wii_bit21_reader = (m_bytes wii_reader)[89 := 0x33]"
    by (simp add: wii_bit21_reader_def wii_reader_def)
  moreover have "(0x00200000 :: u32) AND 0xfc1fffff = 0" by simp
  ultimately show ?thesis
    using Initialize_wii_bit21 wii_ret wii_bit21_word wii_bit21_ret by simp
qed

end
